theory Spec2Isabelle
  imports Complex_Main "HOL-Library.Word" "HOL-Library.Log_Nat"
begin

section \<open>JavaScript values used by the components\<close>

text \<open>
  A JavaScript string is a sequence of UTF-16 code units: \<open>s.length\<close> counts them and
  \<open>s.slice\<close> cuts between them. The bounds of \<open>ExpandableText\<close> are counts of words and
  of code units and are integers; the numbers of \<open>ExpandableContent\<close> are the doubles
  of the section below.
\<close>

type_synonym code_unit = "16 word"
type_synonym js_string = "code_unit list"

definition ascii :: "string \<Rightarrow> js_string" where
  "ascii cs = map (\<lambda>c. of_nat (of_char c)) cs"

text \<open>An optional number used as a condition, \<open>if (n)\<close>: undefined and 0 are falsy.\<close>

fun truthy :: "int option \<Rightarrow> bool" where
  "truthy None = False"
| "truthy (Some n) = (n \<noteq> 0)"

text \<open>
  \<open>xs.slice(0, e)\<close> of a string or an array: a negative end counts from the end of the
  sequence, and the end is clamped to the length.
\<close>

definition slice0 :: "int \<Rightarrow> 'a list \<Rightarrow> 'a list" where
  "slice0 e xs =
     (let len = int (length xs);
          k = (if e < 0 then max (len + e) 0 else min e len)
      in take (nat k) xs)"

text \<open>\<open>a || ""\<close> on a string that may be null or undefined.\<close>

fun or_empty :: "js_string option \<Rightarrow> js_string" where
  "or_empty None = []"
| "or_empty (Some t) = t"

section \<open>JavaScript numbers\<close>

text \<open>
  A number is NaN, an infinity or a finite value. The finite doubles are rationals, and
  a statement about every rational holds for every double. The two zeros are one value:
  both are falsy, compare alike and print alike.
\<close>

datatype js_number = NaN | PosInfinity | NegInfinity | Finite rat

text \<open>The comparisons \<open><\<close> and \<open><=\<close> of JavaScript: each is false when a side is NaN.\<close>

instantiation js_number :: "{zero, ord}"
begin

definition zero_js_number :: js_number where
  "zero_js_number = Finite 0"

fun less_js_number :: "js_number \<Rightarrow> js_number \<Rightarrow> bool" where
  "less_js_number (Finite a) (Finite b) = (a < b)"
| "less_js_number (Finite a) PosInfinity = True"
| "less_js_number NegInfinity (Finite b) = True"
| "less_js_number NegInfinity PosInfinity = True"
| "less_js_number _ _ = False"

fun less_eq_js_number :: "js_number \<Rightarrow> js_number \<Rightarrow> bool" where
  "less_eq_js_number (Finite a) (Finite b) = (a \<le> b)"
| "less_eq_js_number (Finite a) PosInfinity = True"
| "less_eq_js_number NegInfinity (Finite b) = True"
| "less_eq_js_number NegInfinity PosInfinity = True"
| "less_eq_js_number PosInfinity PosInfinity = True"
| "less_eq_js_number NegInfinity NegInfinity = True"
| "less_eq_js_number _ _ = False"

instance ..

end

text \<open>A number used as a condition, \<open>if (n)\<close>: undefined, 0 and NaN are falsy.\<close>

fun truthy_number :: "js_number option \<Rightarrow> bool" where
  "truthy_number None = False"
| "truthy_number (Some NaN) = False"
| "truthy_number (Some (Finite q)) = (q \<noteq> 0)"
| "truthy_number (Some PosInfinity) = True"
| "truthy_number (Some NegInfinity) = True"

text \<open>
  The product of two doubles is the exact product rounded to the nearest double, a tie
  going to the even significand. The doubles around a positive \<open>a\<close> with
  \<open>2^e \<le> a < 2^(e+1)\<close> are the multiples of \<open>2^(e-52)\<close>, and of \<open>2^(-1074)\<close> below
  \<open>2^(-1022)\<close>; a result of \<open>2^1024\<close> or more is an infinity.
\<close>

definition pow2 :: "int \<Rightarrow> rat" where
  "pow2 k = (if 0 \<le> k then 2 ^ nat k else 1 / 2 ^ nat (- k))"

definition ilog2 :: "rat \<Rightarrow> int" where
  "ilog2 x =
     (if 1 \<le> x then bitlen \<lfloor>x\<rfloor> - 1
      else (let k = bitlen \<lfloor>1 / x\<rfloor> - 1
            in if x * pow2 k = 1 then - k else - k - 1))"

definition ulp :: "rat \<Rightarrow> rat" where
  "ulp a = pow2 (max (ilog2 a) (- 1022) - 52)"

definition round_half_even :: "rat \<Rightarrow> int" where
  "round_half_even y =
     (let f = \<lfloor>y\<rfloor>; r = y - of_int f
      in if r < 1 / 2 then f
         else if 1 / 2 < r then f + 1
         else if even f then f else f + 1)"

definition round_double :: "rat \<Rightarrow> js_number" where
  "round_double x =
     (if x = 0 then Finite 0
      else (let a = \<bar>x\<bar>; u = ulp a; y = of_int (round_half_even (a / u)) * u
            in if pow2 1024 \<le> y then (if 0 < x then PosInfinity else NegInfinity)
               else Finite (if 0 < x then y else - y)))"

text \<open>The rationals that are doubles.\<close>

definition representable :: "rat \<Rightarrow> bool" where
  "representable x =
     (x = 0 \<or> (let a = \<bar>x\<bar>; q = a / ulp a in of_int \<lfloor>q\<rfloor> = q \<and> a < pow2 1024))"

text \<open>
  \<open>a * b\<close>: NaN when a factor is NaN or when an infinity meets 0, an infinity with the
  sign of the product when a factor is infinite, the rounded product otherwise.
\<close>

fun js_sign :: "js_number \<Rightarrow> int" where
  "js_sign NaN = 0"
| "js_sign PosInfinity = 1"
| "js_sign NegInfinity = - 1"
| "js_sign (Finite q) = (if q < 0 then - 1 else if q = 0 then 0 else 1)"

fun js_times :: "js_number \<Rightarrow> js_number \<Rightarrow> js_number" where
  "js_times (Finite x) (Finite y) = round_double (x * y)"
| "js_times NaN b = NaN"
| "js_times a NaN = NaN"
| "js_times a b =
     (let s = js_sign a * js_sign b
      in if s = 0 then NaN else if 0 < s then PosInfinity else NegInfinity)"

text \<open>\<open>s.length\<close> as a number.\<close>

definition js_length :: "'a list \<Rightarrow> js_number" where
  "js_length xs = Finite (of_nat (length xs))"

text \<open>
  \<open>xs.slice(0, e)\<close> with a number as the end: NaN counts as 0, a finite end loses its
  fraction, towards 0.
\<close>

fun slice_number :: "js_number \<Rightarrow> 'a list \<Rightarrow> 'a list" where
  "slice_number NaN xs = slice0 0 xs"
| "slice_number PosInfinity xs = xs"
| "slice_number NegInfinity xs = []"
| "slice_number (Finite q) xs = slice0 (if 0 \<le> q then \<lfloor>q\<rfloor> else \<lceil>q\<rceil>) xs"

section \<open>ExpandableContent\<close>

text \<open>
  \<open>children\<close> is a React node. The component asks \<open>typeof children === "string"\<close>, so a
  node is a string or anything else; a node of the second kind carries the plain text
  (\<open>textContent\<close>) that it renders to.
\<close>

datatype react_node = StringNode js_string | ElementNode js_string

fun text_of :: "react_node \<Rightarrow> js_string" where
  "text_of (StringNode t) = t"
| "text_of (ElementNode t) = t"

text \<open>
  The props as the caller passes them (styling props are left out): an optional prop is
  an option, \<open>None\<close> for undefined. \<open>'h\<close> is the state of the hosting component, which
  the \<open>onToggle\<close> callback updates.
\<close>

record 'h ExpandableContentProps =
  prop_children :: react_node
  prop_maxHeight :: "js_number option"
  prop_maxLines :: "js_number option"
  prop_lineHeight :: "js_number option"
  prop_maxCharacters :: "js_number option"
  prop_expandText :: "js_string option"
  prop_collapseText :: "js_string option"
  prop_showGradient :: "bool option"
  prop_controlled :: "bool option"
  prop_expanded :: "bool option"
  prop_onToggle :: "(bool \<Rightarrow> 'h \<Rightarrow> 'h) option"

text \<open>The destructured parameters of the component, with their defaults (lines 25-42).\<close>

record 'h params =
  children :: react_node
  maxHeight :: js_number
  maxLines :: "js_number option"
  lineHeight :: js_number
  maxCharacters :: "js_number option"
  expandText :: js_string
  collapseText :: js_string
  showGradient :: bool
  controlled :: bool
  controlledExpanded :: "bool option"
  onToggle :: "(bool \<Rightarrow> 'h \<Rightarrow> 'h) option"

definition destructure :: "'h ExpandableContentProps \<Rightarrow> 'h params" where
  "destructure r =
     \<lparr> children = prop_children r,
       maxHeight = (case prop_maxHeight r of None \<Rightarrow> Finite 100 | Some v \<Rightarrow> v),
       maxLines = prop_maxLines r,
       lineHeight = (case prop_lineHeight r of None \<Rightarrow> Finite 24 | Some v \<Rightarrow> v),
       maxCharacters = prop_maxCharacters r,
       expandText = (case prop_expandText r of None \<Rightarrow> ascii ''Show more'' | Some v \<Rightarrow> v),
       collapseText = (case prop_collapseText r of None \<Rightarrow> ascii ''Show less'' | Some v \<Rightarrow> v),
       showGradient = (case prop_showGradient r of None \<Rightarrow> True | Some v \<Rightarrow> v),
       controlled = (case prop_controlled r of None \<Rightarrow> False | Some v \<Rightarrow> v),
       controlledExpanded = prop_expanded r,
       onToggle = prop_onToggle r \<rparr>"

text \<open>The four \<open>useState\<close> cells (lines 45-49) and their initial values.\<close>

record state =
  internalExpanded :: bool
  needsExpansion :: bool
  fullContentHeight :: js_number
  calculatedMaxHeight :: js_number

definition init :: "'h params \<Rightarrow> state" where
  "init p =
     \<lparr> internalExpanded = False, needsExpansion = False,
       fullContentHeight = 0, calculatedMaxHeight = maxHeight p \<rparr>"

text \<open>Line 51: \<open>controlled ? controlledExpanded ?? false : internalExpanded\<close>.\<close>

definition expanded :: "'h params \<Rightarrow> state \<Rightarrow> bool" where
  "expanded p s =
     (if controlled p
      then (case controlledExpanded p of None \<Rightarrow> False | Some b \<Rightarrow> b)
      else internalExpanded s)"

text \<open>Lines 58-61: the collapsed height computed from the props.\<close>

definition collapsedHeight :: "'h params \<Rightarrow> js_number" where
  "collapsedHeight p =
     (if truthy_number (maxLines p)
      then (case maxLines p of
              Some m \<Rightarrow> js_times (lineHeight p) m
            | None \<Rightarrow> maxHeight p)
      else maxHeight p)"

text \<open>
  The body of the effect up to the creation of the observer (lines 54-62). Its argument
  is the text of the element \<open>contentRef.current\<close>, \<open>None\<close> when the ref is null: then the
  effect returns at once.
\<close>

definition effect :: "'h params \<Rightarrow> js_string option \<Rightarrow> state \<Rightarrow> state" where
  "effect p contentElement s =
     (case contentElement of
        None \<Rightarrow> s
      | Some _ \<Rightarrow> s\<lparr>calculatedMaxHeight := collapsedHeight p\<rparr>)"

text \<open>
  What the observer reads from one entry: \<open>entry.target.scrollHeight\<close> and
  \<open>entry.target.textContent\<close>.
\<close>

record entry =
  scrollHeight :: js_number
  textContent :: "js_string option"

text \<open>The body of the loop over the entries (lines 69-79), and the loop (line 67).\<close>

definition observerEntry :: "'h params \<Rightarrow> entry \<Rightarrow> state \<Rightarrow> state" where
  "observerEntry p e s =
     (let naturalHeight = scrollHeight e;
          s1 = s\<lparr>fullContentHeight := naturalHeight\<rparr>
      in if truthy_number (maxCharacters p)
         then (case maxCharacters p of
                 Some c \<Rightarrow> s1\<lparr>needsExpansion := js_length (or_empty (textContent e)) > c\<rparr>
               | None \<Rightarrow> s1)
         else s1\<lparr>needsExpansion := naturalHeight > collapsedHeight p\<rparr>)"

fun observerCallback :: "'h params \<Rightarrow> entry list \<Rightarrow> state \<Rightarrow> state" where
  "observerCallback p [] s = s"
| "observerCallback p (e # es) s = observerCallback p es (observerEntry p e s)"

text \<open>
  Lines 89-95. Calling a value that is not a function throws a TypeError, so a call of
  the optional callback is a result that may be an error. The toggle returns the new
  state of the component and the new state of the host.
\<close>

datatype js_error = TypeError

fun call_callback :: "('a \<Rightarrow> 'h \<Rightarrow> 'h) option \<Rightarrow> 'a \<Rightarrow> 'h \<Rightarrow> js_error + 'h" where
  "call_callback None a h = Inl TypeError"
| "call_callback (Some f) a h = Inr (f a h)"

definition handleToggle :: "'h params \<Rightarrow> state \<Rightarrow> 'h \<Rightarrow> js_error + (state \<times> 'h)" where
  "handleToggle p s h =
     (if controlled p \<and> onToggle p \<noteq> None
      then (case call_callback (onToggle p) (\<not> expanded p s) h of
              Inl err \<Rightarrow> Inl err
            | Inr h' \<Rightarrow> Inr (s, h'))
      else Inr (s\<lparr>internalExpanded := \<not> expanded p s\<rparr>, h))"

text \<open>
  Lines 97-109. \<open>contentRef\<close> is the text of the element the ref points to when the
  component renders, \<open>None\<close> when \<open>contentRef.current\<close> is null.
\<close>

definition getTruncatedContent :: "'h params \<Rightarrow> state \<Rightarrow> js_string option \<Rightarrow> react_node" where
  "getTruncatedContent p s contentRef =
     (if \<not> truthy_number (maxCharacters p) \<or> expanded p s then children p
      else (case maxCharacters p of
              None \<Rightarrow> children p
            | Some c \<Rightarrow>
                (let textContent' =
                       (case children p of
                          StringNode t \<Rightarrow> t
                        | ElementNode _ \<Rightarrow> or_empty contentRef)
                 in if js_length textContent' \<le> c then children p
                    else StringNode (slice_number c textContent' @ ascii ''...''))))"

text \<open>
  What the component returns (lines 121-173): the children in a plain container, or the
  container with the height limit, whose parts are the \<open>maxHeight\<close> style in pixels, the
  content, whether the gradient overlay is there, and the label of the button when the
  button is there.
\<close>

datatype view =
  Direct react_node
| Collapsible js_number react_node bool "js_string option"

definition render :: "'h params \<Rightarrow> state \<Rightarrow> js_string option \<Rightarrow> view" where
  "render p s contentRef =
     (if \<not> needsExpansion s \<and> fullContentHeight s > 0 then Direct (children p)
      else Collapsible
             (if expanded p s then fullContentHeight s else calculatedMaxHeight s)
             (getTruncatedContent p s contentRef)
             (showGradient p \<and> \<not> expanded p s)
             (if needsExpansion s
              then Some (if expanded p s then collapseText p else expandText p)
              else None))"

text \<open>
  The text that the content element can hold for children whose plain text is \<open>t\<close> under
  the character bound \<open>c\<close>: the component has put there the children themselves, or the
  cut text with its suffix.
\<close>

definition rendered_text :: "js_number \<Rightarrow> js_string \<Rightarrow> js_string \<Rightarrow> bool" where
  "rendered_text c t d =
     (d = t \<or> (js_length t > c \<and> d = slice_number c t @ ascii ''...''))"

text \<open>
  The text of \<open>contentRef.current\<close> after a render, and after a sequence of renders with
  the props and the state of each: React sets the ref to the content element when it
  commits the limited container, whose text is then that of the returned content, and to
  null when it commits the plain container.
\<close>

fun ref_after_render :: "view \<Rightarrow> js_string option" where
  "ref_after_render (Direct x) = None"
| "ref_after_render (Collapsible h x g b) = Some (text_of x)"

fun ref_after_renders ::
  "js_string option \<Rightarrow> ('h params \<times> state) list \<Rightarrow> js_string option" where
  "ref_after_renders r [] = r"
| "ref_after_renders r ((p, s) # ps) =
     ref_after_renders (ref_after_render (render p s r)) ps"

text \<open>Reading a view: the height limit, the content shown, the overlay, the button.\<close>

fun view_maxHeight :: "view \<Rightarrow> js_number option" where
  "view_maxHeight (Direct c) = None"
| "view_maxHeight (Collapsible h c g b) = Some h"

fun view_content :: "view \<Rightarrow> react_node" where
  "view_content (Direct c) = c"
| "view_content (Collapsible h c g b) = c"

fun view_overlay :: "view \<Rightarrow> bool" where
  "view_overlay (Direct c) = False"
| "view_overlay (Collapsible h c g b) = g"

fun view_button :: "view \<Rightarrow> js_string option" where
  "view_button (Direct c) = None"
| "view_button (Collapsible h c g b) = b"

section \<open>ExpandableText\<close>

text \<open>
  \<open>s.split(" ")\<close> cuts the string at every code unit that is a separator and keeps the
  empty pieces; the empty string gives one empty piece. \<open>ws.join(" ")\<close> puts the
  separator back between the pieces.
\<close>

fun split_on :: "('a \<Rightarrow> bool) \<Rightarrow> 'a list \<Rightarrow> 'a list list" where
  "split_on sep [] = [[]]"
| "split_on sep (x # xs) =
     (if sep x then [] # split_on sep xs
      else (case split_on sep xs of
              [] \<Rightarrow> [[x]]
            | w # ws \<Rightarrow> (x # w) # ws))"

definition split_space :: "js_string \<Rightarrow> js_string list" where
  "split_space t = split_on (\<lambda>u. u = 0x20) t"

fun join :: "'a list \<Rightarrow> 'a list list \<Rightarrow> 'a list" where
  "join sep [] = []"
| "join sep [w] = w"
| "join sep (w # v # ws) = w @ sep @ join sep (v # ws)"

record ExpandableTextProps =
  tprop_text :: js_string
  tprop_maxCharacters :: "int option"
  tprop_maxWords :: "int option"
  tprop_expandText :: "js_string option"
  tprop_collapseText :: "js_string option"

text \<open>The destructured parameters with their defaults (lines 186-193).\<close>

record text_params =
  t_text :: js_string
  t_maxCharacters :: int
  t_maxWords :: "int option"
  t_expandText :: js_string
  t_collapseText :: js_string

definition destructure_text :: "ExpandableTextProps \<Rightarrow> text_params" where
  "destructure_text r =
     \<lparr> t_text = tprop_text r,
       t_maxCharacters = (case tprop_maxCharacters r of None \<Rightarrow> 150 | Some v \<Rightarrow> v),
       t_maxWords = tprop_maxWords r,
       t_expandText = (case tprop_expandText r of None \<Rightarrow> ascii ''Read more'' | Some v \<Rightarrow> v),
       t_collapseText = (case tprop_collapseText r of None \<Rightarrow> ascii ''Read less'' | Some v \<Rightarrow> v) \<rparr>"

text \<open>Lines 196-206.\<close>

definition getTruncatedText :: "text_params \<Rightarrow> js_string" where
  "getTruncatedText p =
     (if truthy (t_maxWords p)
      then (case t_maxWords p of
              None \<Rightarrow> t_text p
            | Some mw \<Rightarrow>
                (let words = split_space (t_text p)
                 in if int (length words) > mw
                    then join (ascii '' '') (slice0 mw words) @ ascii ''...''
                    else t_text p))
      else if int (length (t_text p)) > t_maxCharacters p
           then slice0 (t_maxCharacters p) (t_text p) @ ascii ''...''
           else t_text p)"

text \<open>Lines 208-210.\<close>

definition needsTruncation :: "text_params \<Rightarrow> bool" where
  "needsTruncation p =
     (if truthy (t_maxWords p)
      then (case t_maxWords p of
              None \<Rightarrow> False
            | Some mw \<Rightarrow> int (length (split_space (t_text p))) > mw)
      else int (length (t_text p)) > t_maxCharacters p)"

text \<open>
  What the component returns (lines 212-228) for the props and its one state cell
  \<open>expanded\<close>: the paragraph with the text alone, or the paragraph with the shown text
  and the button with its label.
\<close>

datatype text_view =
  Paragraph js_string
| ParagraphWithButton js_string js_string

definition ExpandableText :: "text_params \<Rightarrow> bool \<Rightarrow> text_view" where
  "ExpandableText p isExpanded =
     (if \<not> needsTruncation p then Paragraph (t_text p)
      else ParagraphWithButton
             (if isExpanded then t_text p else getTruncatedText p)
             (if isExpanded then t_collapseText p else t_expandText p))"

text \<open>
  The specification's reading of the word count, "splitting on whitespace": the same
  cut, at every white space or line terminator code unit of JavaScript, and the
  decision it gives.
\<close>

definition is_whitespace :: "code_unit \<Rightarrow> bool" where
  "is_whitespace u =
     (u \<in> {0x09, 0x0A, 0x0B, 0x0C, 0x0D, 0x20, 0xA0, 0x1680, 0x2028, 0x2029,
            0x202F, 0x205F, 0x3000, 0xFEFF}
      \<or> (0x2000 \<le> u \<and> u \<le> 0x200A))"

definition wordCount_whitespace :: "js_string \<Rightarrow> nat" where
  "wordCount_whitespace t = length (split_on is_whitespace t)"

definition needsTruncation_spec :: "text_params \<Rightarrow> bool" where
  "needsTruncation_spec p =
     (if truthy (t_maxWords p)
      then (case t_maxWords p of
              None \<Rightarrow> False
            | Some mw \<Rightarrow> int (wordCount_whitespace (t_text p)) > mw)
      else int (length (t_text p)) > t_maxCharacters p)"

section \<open>LoadingComponent\<close>

text \<open>
  A value that may be \<open>undefined\<close> or \<open>null\<close>; \<open>a ?? b\<close> takes \<open>b\<close> for both. \<open>'n\<close> is
  the type of the other React nodes.
\<close>

datatype 'n nullable = Undefined | Null | Node 'n

text \<open>
  \<open>children\<close> is a function of the data or a node. \<open>data\<close> is \<open>None\<close> when it is
  undefined.
\<close>

datatype ('d, 'n) child = Function "'d \<Rightarrow> 'n nullable" | Plain "'n nullable"

record ('d, 'n) LoadingComponentProps =
  lprop_loading :: bool
  lprop_empty :: "bool option"
  lprop_error :: "bool option"
  lprop_data :: "'d option"
  lprop_loadingComponent :: "'n nullable"
  lprop_emptyComponent :: "'n nullable"
  lprop_errorComponent :: "'n nullable"
  lprop_children :: "('d, 'n) child"

text \<open>
  What the component returns: a node of the caller's, one of the three default
  elements, or a fragment around a node.
\<close>

datatype 'n loading_view =
  Given 'n
| DefaultError
| DefaultLoading
| DefaultEmpty
| Fragment "'n nullable"

fun nullish_or :: "'n nullable \<Rightarrow> 'n loading_view \<Rightarrow> 'n loading_view" where
  "nullish_or (Node n) d = Given n"
| "nullish_or Undefined d = d"
| "nullish_or Null d = d"

text \<open>Lines 20-66 of the component, the defaults of \<open>empty\<close> and \<open>error\<close> included.\<close>

definition LoadingComponent :: "('d, 'n) LoadingComponentProps \<Rightarrow> 'n loading_view" where
  "LoadingComponent r =
     (let empty = (case lprop_empty r of None \<Rightarrow> False | Some b \<Rightarrow> b);
          error = (case lprop_error r of None \<Rightarrow> False | Some b \<Rightarrow> b)
      in if error then nullish_or (lprop_errorComponent r) DefaultError
         else if lprop_loading r then nullish_or (lprop_loadingComponent r) DefaultLoading
         else if empty then nullish_or (lprop_emptyComponent r) DefaultEmpty
         else (case lprop_children r of
                 Function f \<Rightarrow>
                   Fragment (case lprop_data r of Some d \<Rightarrow> f d | None \<Rightarrow> Null)
               | Plain n \<Rightarrow> Fragment n))"

section \<open>Configurations and inputs of the examples\<close>

text \<open>The props of a caller that passes the children alone.\<close>

definition props_of :: "react_node \<Rightarrow> 'h ExpandableContentProps" where
  "props_of ch =
     \<lparr> prop_children = ch, prop_maxHeight = None, prop_maxLines = None,
       prop_lineHeight = None, prop_maxCharacters = None, prop_expandText = None,
       prop_collapseText = None, prop_showGradient = None, prop_controlled = None,
       prop_expanded = None, prop_onToggle = None \<rparr>"

text \<open>One entry of the observer: a height and the text of the observed element.\<close>

definition measured :: "js_number \<Rightarrow> js_string \<Rightarrow> entry" where
  "measured n t = \<lparr> scrollHeight = n, textContent = Some t \<rparr>"

text \<open>A text of a given length: the letter a, repeated.\<close>

definition long_text :: "nat \<Rightarrow> js_string" where
  "long_text n = replicate n 0x61"

text \<open>
  The uses in \<open>ExpandableContentExample\<close>: three lines of 24 pixels (line 268), 200
  characters without gradient (line 298), and the controlled use (lines 308-315), whose
  host keeps the flag in its own state and passes its setter as \<open>onToggle\<close>.
\<close>

definition lines_example :: "unit params" where
  "lines_example =
     destructure ((props_of (ElementNode (long_text 500)))
       \<lparr> prop_maxLines := Some (Finite 3), prop_lineHeight := Some (Finite 24),
         prop_showGradient := Some True \<rparr>)"

text \<open>Three lines of 24.5 pixels, and 94906267 lines of 94906267 pixels.\<close>

definition fractional_lines :: "unit params" where
  "fractional_lines =
     destructure ((props_of (ElementNode (long_text 500)))
       \<lparr> prop_maxLines := Some (Finite 3), prop_lineHeight := Some (Finite (49 / 2)) \<rparr>)"

definition large_lines :: "unit params" where
  "large_lines =
     destructure ((props_of (ElementNode (long_text 500)))
       \<lparr> prop_maxLines := Some (Finite 94906267),
         prop_lineHeight := Some (Finite 94906267) \<rparr>)"

definition characters_example :: "react_node \<Rightarrow> unit params" where
  "characters_example ch =
     destructure ((props_of ch)
       \<lparr> prop_maxCharacters := Some (Finite 200), prop_showGradient := Some False \<rparr>)"

definition controlled_example :: "bool \<Rightarrow> bool params" where
  "controlled_example controlled1 =
     destructure ((props_of (ElementNode (long_text 500)))
       \<lparr> prop_maxHeight := Some (Finite 80), prop_controlled := Some True,
         prop_expanded := Some controlled1, prop_onToggle := Some (\<lambda>b _. b),
         prop_expandText := Some (ascii ''Expand Content''),
         prop_collapseText := Some (ascii ''Collapse Content'') \<rparr>)"

text \<open>A controlled use whose caller passes neither the flag nor the callback.\<close>

definition controlled_without_callback :: "unit params" where
  "controlled_without_callback =
     destructure ((props_of (ElementNode (long_text 500))) \<lparr> prop_controlled := Some True \<rparr>)"

text \<open>A character bound of 0, and a character bound of 2 on three spaces.\<close>

definition zero_characters :: "unit params" where
  "zero_characters =
     destructure ((props_of (StringNode (ascii ''abc''))) \<lparr> prop_maxCharacters := Some (Finite 0) \<rparr>)"

definition three_spaces :: "unit params" where
  "three_spaces =
     destructure ((props_of (ElementNode (ascii ''   ''))) \<lparr> prop_maxCharacters := Some (Finite 2) \<rparr>)"

text \<open>An empty child with the default props.\<close>

definition empty_content :: "unit params" where
  "empty_content = destructure (props_of (StringNode []))"

text \<open>
  \<open>ExpandableText\<close> with a bound of one word on a text of two letters with a tab between
  them, and with the default bounds on a short text.
\<close>

definition text_props :: "js_string \<Rightarrow> ExpandableTextProps" where
  "text_props t =
     \<lparr> tprop_text = t, tprop_maxCharacters = None, tprop_maxWords = None,
       tprop_expandText = None, tprop_collapseText = None \<rparr>"

definition tab_text :: text_params where
  "tab_text = destructure_text ((text_props [0x61, 0x09, 0x62]) \<lparr> tprop_maxWords := Some 1 \<rparr>)"

definition two_words_of_three :: text_params where
  "two_words_of_three =
     destructure_text ((text_props (ascii ''a b c'')) \<lparr> tprop_maxWords := Some 2 \<rparr>)"

text \<open>Props of \<open>LoadingComponent\<close> over numbers as data and strings as nodes.\<close>

definition loading_props ::
  "bool \<Rightarrow> bool option \<Rightarrow> bool option \<Rightarrow> nat option \<Rightarrow> (nat, string) child
     \<Rightarrow> (nat, string) LoadingComponentProps" where
  "loading_props l em er d ch =
     \<lparr> lprop_loading = l, lprop_empty = em, lprop_error = er, lprop_data = d,
       lprop_loadingComponent = Undefined, lprop_emptyComponent = Null,
       lprop_errorComponent = Node ''failed'', lprop_children = ch \<rparr>"

section \<open>Facts about the numbers\<close>

lemma js_zero_less [simp]: "(0 < Finite q) = (0 < q)" "(Finite q < 0) = (q < 0)"
  by (simp_all add: zero_js_number_def)

lemma js_zero_le [simp]: "(0 \<le> Finite q) = (0 \<le> q)" "(Finite q \<le> 0) = (q \<le> 0)"
  by (simp_all add: zero_js_number_def)

lemma js_zero_cases [simp]:
  "\<not> (0::js_number) < 0" "\<not> NaN < (0::js_number)" "\<not> (0::js_number) < NaN"
  "\<not> (0::js_number) \<le> NaN" "\<not> PosInfinity < (0::js_number)"
  "(0::js_number) \<le> PosInfinity" "\<not> (0::js_number) \<le> NegInfinity"
  by (simp_all add: zero_js_number_def)

lemma js_le_not_less: "a \<le> b \<Longrightarrow> \<not> b < a"
  for a b :: js_number
  by (cases a; cases b) simp_all

lemma js_less_not_le: "a < b \<Longrightarrow> \<not> b \<le> a"
  for a b :: js_number
  by (cases a; cases b) simp_all

lemma js_length_Nil: "js_length [] = 0"
  by (simp add: js_length_def zero_js_number_def)

lemma js_length_less [simp]:
  "(Finite q < js_length xs) = (q < of_nat (length xs))"
  "(js_length xs \<le> Finite q) = (of_nat (length xs) \<le> q)"
  by (simp_all add: js_length_def)

text \<open>
  \<open>ilog2\<close> is the exponent of the binade, a double is rounded to itself, and the
  integers up to \<open>2^53\<close> are doubles.
\<close>

lemma pow2_powi: "pow2 k = 2 powi k"
  by (simp add: pow2_def power_int_def field_simps)

lemma pow2_pos: "0 < pow2 k"
  by (simp add: pow2_powi)

lemma pow2_add: "pow2 (j + k) = pow2 j * pow2 k"
  by (simp add: pow2_powi power_int_add)

lemma pow2_nat: "0 \<le> k \<Longrightarrow> pow2 k = 2 ^ nat k"
  by (simp add: pow2_def)

lemma pow2_mono: "j \<le> k \<Longrightarrow> pow2 j \<le> pow2 k"
  by (simp add: pow2_powi power_int_increasing)

lemma pow2_0: "pow2 0 = 1"
  by (simp add: pow2_def)

lemma pow2_strict_mono: "j < k \<Longrightarrow> pow2 j < pow2 k"
  by (simp add: pow2_powi power_int_strict_increasing)

lemma pow2_less_iff: "pow2 j < pow2 k \<longleftrightarrow> j < k"
proof
  assume "pow2 j < pow2 k"
  show "j < k"
  proof (rule ccontr)
    assume "\<not> j < k"
    then have "pow2 k \<le> pow2 j" by (simp add: pow2_mono)
    with \<open>pow2 j < pow2 k\<close> show False by simp
  qed
qed (rule pow2_strict_mono)
  
lemma floor_bitlen_bounds:
  fixes y :: rat
  assumes "1 \<le> y"
  shows "pow2 (bitlen \<lfloor>y\<rfloor> - 1) \<le> y \<and> y < pow2 (bitlen \<lfloor>y\<rfloor>)"
proof -
  let ?n = "\<lfloor>y\<rfloor>"
  have n: "0 < ?n" using assms by simp
  from bitlen_bounds [OF n]
  have lo: "2 ^ nat (bitlen ?n - 1) \<le> ?n" and hi: "?n < 2 ^ nat (bitlen ?n)"
    by simp_all
  have b: "1 \<le> bitlen ?n" using n by (simp add: bitlen_alt_def)
  have "(of_int (2 ^ nat (bitlen ?n - 1)) :: rat) \<le> of_int ?n"
    using lo by (simp only: of_int_le_iff)
  also have "\<dots> \<le> y" by simp
  finally have 1: "pow2 (bitlen ?n - 1) \<le> y"
    using b by (simp add: pow2_nat)
  have "?n + 1 \<le> 2 ^ nat (bitlen ?n)" using hi by simp
  then have "(of_int (?n + 1) :: rat) \<le> of_int (2 ^ nat (bitlen ?n))"
    by (simp only: of_int_le_iff)
  moreover have "y < of_int (?n + 1)" by linarith
  ultimately have 2: "y < pow2 (bitlen ?n)"
    using b by (simp add: pow2_nat)
  from 1 2 show ?thesis ..
qed

lemma ilog2_bounds:
  assumes "0 < x"
  shows "pow2 (ilog2 x) \<le> x \<and> x < pow2 (ilog2 x + 1)"
proof (cases "1 \<le> x")
  case True
  with floor_bitlen_bounds [OF True] show ?thesis
    by (simp add: ilog2_def)
next
  case False
  let ?k = "bitlen \<lfloor>1 / x\<rfloor> - 1"
  have y: "1 \<le> 1 / x" using assms False by simp
  from floor_bitlen_bounds [OF y]
  have lo: "pow2 ?k \<le> 1 / x" and hi: "1 / x < pow2 (?k + 1)" by simp_all
  have up: "x * pow2 ?k \<le> 1"
    using lo assms by (simp add: field_simps)
  have dn: "1 < x * pow2 (?k + 1)"
    using hi assms by (simp add: field_simps)
  have inv: "pow2 (- ?k) * pow2 ?k = 1" "pow2 (- ?k - 1) * pow2 (?k + 1) = 1"
    by (simp_all add: pow2_add [symmetric] pow2_0)
  have a: "x \<le> pow2 (- ?k)"
  proof -
    have "x * pow2 ?k \<le> pow2 (- ?k) * pow2 ?k" using up inv by simp
    then show ?thesis using pow2_pos [of ?k] by simp
  qed
  have b: "pow2 (- ?k - 1) < x"
  proof -
    have "pow2 (- ?k - 1) * pow2 (?k + 1) < x * pow2 (?k + 1)" using dn inv by simp
    then show ?thesis using pow2_pos [of "?k + 1"] by simp
  qed
  show ?thesis
  proof (cases "x * pow2 ?k = 1")
    case True
    then have "x * pow2 ?k = pow2 (- ?k) * pow2 ?k" using inv by simp
    then have e: "x = pow2 (- ?k)" using pow2_pos [of ?k] by simp
    have "pow2 (- ?k) < pow2 (- ?k + 1)" by (simp add: pow2_less_iff)
    with e True False show ?thesis
      by (simp add: ilog2_def Let_def)
  next
    case ne: False
    have "x \<noteq> pow2 (- ?k)"
      using ne inv by auto
    with a have "x < pow2 (- ?k)" by simp
    with b ne False show ?thesis
      by (simp add: ilog2_def Let_def)
  qed
qed

lemma ilog2_less:
  assumes "0 < x" and "x < pow2 k"
  shows "ilog2 x < k"
proof -
  from ilog2_bounds [OF assms(1)] assms(2) have "pow2 (ilog2 x) < pow2 k" by simp
  then show ?thesis by (simp add: pow2_less_iff)
qed

lemma ilog2_ge:
  assumes "0 < x" and "pow2 k \<le> x"
  shows "k \<le> ilog2 x"
proof -
  from ilog2_bounds [OF assms(1)] assms(2) have "pow2 k < pow2 (ilog2 x + 1)" by simp
  then show ?thesis by (simp add: pow2_less_iff)
qed

lemma round_half_even_of_int: "round_half_even (of_int n) = n"
  by (simp add: round_half_even_def)

lemma ulp_pos: "0 < ulp a"
  by (simp add: ulp_def pow2_pos)

lemma round_double_exact:
  assumes "representable x"
  shows "round_double x = Finite x"
proof (cases "x = 0")
  case True
  then show ?thesis by (simp add: round_double_def)
next
  case False
  let ?a = "\<bar>x\<bar>"
  let ?q = "?a / ulp ?a"
  from assms False have "of_int \<lfloor>?q\<rfloor> = ?q \<and> ?a < pow2 1024"
    unfolding representable_def Let_def by blast
  then have q: "of_int \<lfloor>?q\<rfloor> = ?q" and r: "?a < pow2 1024"
    by blast+
  have "round_half_even ?q = \<lfloor>?q\<rfloor>"
    using round_half_even_of_int [of "\<lfloor>?q\<rfloor>"] by (simp only: q)
  then have rq: "(of_int (round_half_even ?q) :: rat) = ?q"
    by (simp only: q)
  have "?q * ulp ?a = ?a"
    using ulp_pos [of ?a] by simp
  then have y: "of_int (round_half_even ?q) * ulp ?a = ?a"
    by (simp only: rq)
  show ?thesis
    using False r y by (auto simp: round_double_def Let_def)
qed

lemma representable_of_int:
  assumes "\<bar>n\<bar> \<le> 2 ^ 53"
  shows "representable (of_int n)"
proof (cases "n = 0")
  case True
  then show ?thesis by (simp add: representable_def)
next
  case False
  let ?a = "\<bar>of_int n\<bar> :: rat"
  have pos: "0 < ?a" using False by simp
  have "1 \<le> \<bar>n\<bar>" using False by simp
  then have "(of_int 1 :: rat) \<le> of_int \<bar>n\<bar>" by (simp only: of_int_le_iff)
  then have one: "1 \<le> ?a" by simp
  have "(of_int \<bar>n\<bar> :: rat) \<le> of_int (2 ^ 53)" using assms by (simp only: of_int_le_iff)
  then have le: "?a \<le> pow2 53" by (simp add: pow2_nat)
  then have "?a < pow2 1024"
    using pow2_less_iff [of 53 1024] by simp
  moreover have "of_int \<lfloor>?a / ulp ?a\<rfloor> = ?a / ulp ?a"
  proof (cases "?a = pow2 53")
    case True
    have "ilog2 (pow2 53) < 54"
      by (rule ilog2_less) (simp_all add: pow2_pos pow2_less_iff)
    moreover have "53 \<le> ilog2 (pow2 53)"
      by (rule ilog2_ge) (simp_all add: pow2_pos)
    ultimately have "ilog2 (pow2 53) = 53" by simp
    then have "ulp ?a = 2" using True by (simp add: ulp_def pow2_nat)
    moreover have "?a / 2 = of_int (2 ^ 52)" using True by (simp add: pow2_nat)
    ultimately show ?thesis by (metis floor_of_int)
  next
    case ne: False
    with le have "?a < pow2 53" by simp
    from ilog2_less [OF pos this] have u: "ilog2 ?a \<le> 52" by simp
    have l: "0 \<le> ilog2 ?a"
      by (rule ilog2_ge [OF pos]) (simp add: pow2_0 one)
    define j where "j = nat (52 - ilog2 ?a)"
    have "ulp ?a = pow2 (- int j)"
      using u l by (simp add: ulp_def j_def max_def)
    then have "?a / ulp ?a = ?a * 2 ^ j"
      by (simp add: pow2_def field_simps)
    also have "\<dots> = of_int (\<bar>n\<bar> * 2 ^ j)" by simp
    finally show ?thesis by (metis floor_of_int)
  qed
  ultimately show ?thesis
    using False by (simp add: representable_def Let_def)
qed

text \<open>
  The rounded value is a double, and no further from the exact value than half the
  distance between the doubles there.
\<close>

lemma round_half_even_near: "\<bar>y - of_int (round_half_even y)\<bar> \<le> 1 / 2"
proof -
  define r where "r = y - of_int \<lfloor>y\<rfloor>"
  have r: "0 \<le> r" "r < 1" unfolding r_def by linarith+
  have y: "y = of_int \<lfloor>y\<rfloor> + r" unfolding r_def by simp
  have "\<bar>y - of_int (round_half_even y)\<bar> =
      (if r < 1 / 2 then \<bar>r\<bar> else if 1 / 2 < r then \<bar>r - 1\<bar>
       else if even \<lfloor>y\<rfloor> then \<bar>r\<bar> else \<bar>r - 1\<bar>)"
    unfolding round_half_even_def Let_def r_def [symmetric]
    by (subst (1 2 3 4) y) simp
  with r show ?thesis by (auto simp: abs_if)
qed

lemma round_half_even_mono:
  assumes "of_int n \<le> y"
  shows "n \<le> round_half_even y"
proof -
  from assms have "n \<le> \<lfloor>y\<rfloor>" by (simp add: le_floor_iff)
  then show ?thesis by (auto simp: round_half_even_def Let_def)
qed

lemma round_half_even_le:
  assumes "y \<le> of_int n"
  shows "round_half_even y \<le> n"
proof (cases "y = of_int n")
  case True
  then show ?thesis by (simp add: round_half_even_of_int)
next
  case False
  with assms have "y < of_int n" by simp
  then have "\<lfloor>y\<rfloor> < n" by (simp add: floor_less_iff)
  then show ?thesis by (auto simp: round_half_even_def Let_def)
qed

lemma round_double_near:
  assumes "round_double x = Finite y"
  shows "\<bar>x - y\<bar> \<le> ulp \<bar>x\<bar> / 2"
proof (cases "x = 0")
  case True
  with assms show ?thesis using ulp_pos [of 0] by (simp add: round_double_def)
next
  case False
  let ?a = "\<bar>x\<bar>"
  let ?u = "ulp ?a"
  let ?n = "round_half_even (?a / ?u)"
  have u: "0 < ?u" by (rule ulp_pos)
  have "\<bar>?a / ?u - of_int ?n\<bar> \<le> 1 / 2" by (rule round_half_even_near)
  then have "\<bar>?a / ?u - of_int ?n\<bar> * ?u \<le> 1 / 2 * ?u"
    using u by (simp only: mult_le_cancel_right_pos)
  moreover have "?a - of_int ?n * ?u = (?a / ?u - of_int ?n) * ?u"
    using u by (simp add: field_simps)
  then have "\<bar>?a - of_int ?n * ?u\<bar> = \<bar>?a / ?u - of_int ?n\<bar> * ?u"
    using u by (simp only: abs_mult) simp
  ultimately have n: "\<bar>?a - of_int ?n * ?u\<bar> \<le> ?u / 2"
    by simp
  from assms False have y: "y = (if 0 < x then of_int ?n * ?u else - (of_int ?n * ?u))"
    by (auto simp: round_double_def Let_def split: if_splits)
  show ?thesis
  proof (cases "0 < x")
    case True
    with n y show ?thesis by simp
  next
    case neg: False
    with False have "x < 0" by simp
    then have "x - y = - (?a - of_int ?n * ?u)"
      using y neg by simp
    then have "\<bar>x - y\<bar> = \<bar>?a - of_int ?n * ?u\<bar>"
      by (simp only: abs_minus)
    with n show ?thesis by simp
  qed
qed

lemma ilog2_unique:
  assumes "pow2 k \<le> x" and "x < pow2 (k + 1)"
  shows "ilog2 x = k"
proof -
  have pos: "0 < x" using assms(1) pow2_pos [of k] by simp
  from ilog2_less [OF pos assms(2)] ilog2_ge [OF pos assms(1)] show ?thesis by simp
qed

lemma representable_minus: "representable (- x) = representable x"
  by (simp add: representable_def)

lemma pow2_diff: "pow2 (k - j) = pow2 k / pow2 j"
  by (simp add: pow2_powi power_int_diff)

lemma representable_multiple_less:
  assumes "0 < n" and "n < 2 ^ 53" and "- 1074 \<le> k" and "of_int n * pow2 k < pow2 1024"
  shows "representable (of_int n * pow2 k)"
proof -
  let ?x = "of_int n * pow2 k :: rat"
  have pos: "0 < ?x" using assms(1) pow2_pos [of k] by simp
  have "(of_int n :: rat) < of_int (2 ^ 53)" using assms(2) by (simp only: of_int_less_iff)
  then have "(of_int n :: rat) < pow2 53" by (simp add: pow2_nat)
  then have "?x < pow2 53 * pow2 k" using pow2_pos [of k] by simp
  then have "?x < pow2 (53 + k)" by (simp add: pow2_add)
  from ilog2_less [OF pos this] have e: "ilog2 ?x \<le> 52 + k" by simp
  define j where "j = max (ilog2 ?x) (- 1022) - 52"
  have j: "j \<le> k" using e assms(3) by (simp add: j_def)
  have u: "ulp \<bar>?x\<bar> = pow2 j" using pos by (simp add: ulp_def j_def)
  have "\<bar>?x\<bar> / ulp \<bar>?x\<bar> = of_int n * (pow2 k / pow2 j)"
    using pos u by simp
  also have "\<dots> = of_int n * pow2 (k - j)" by (simp add: pow2_diff)
  also have "\<dots> = of_int (n * 2 ^ nat (k - j))" using j by (simp add: pow2_nat)
  finally have "of_int \<lfloor>\<bar>?x\<bar> / ulp \<bar>?x\<bar>\<rfloor> = \<bar>?x\<bar> / ulp \<bar>?x\<bar>"
    by (metis floor_of_int)
  moreover have "\<bar>?x\<bar> < pow2 1024" using pos assms(4) by simp
  ultimately show ?thesis
    by (simp add: representable_def Let_def)
qed

lemma representable_multiple:
  assumes "0 \<le> n" and "n \<le> 2 ^ 53" and "- 1074 \<le> k" and "of_int n * pow2 k < pow2 1024"
  shows "representable (of_int n * pow2 k)"
proof (cases "n = 0 \<or> n = 2 ^ 53")
  case False
  with assms show ?thesis by (intro representable_multiple_less) simp_all
next
  case True
  then show ?thesis
  proof
    assume "n = 0"
    then show ?thesis by (simp add: representable_def)
  next
    assume n: "n = 2 ^ 53"
    have "(of_int n :: rat) * pow2 k = of_int (2 ^ 52) * (2 * pow2 k)" using n by simp
    also have "2 * pow2 k = pow2 (k + 1)" by (simp add: pow2_add pow2_nat)
    finally have eq: "(of_int n :: rat) * pow2 k = of_int (2 ^ 52) * pow2 (k + 1)" .
    have "representable (of_int (2 ^ 52) * pow2 (k + 1))"
      using assms(3,4) unfolding eq by (intro representable_multiple_less) simp_all
    then show ?thesis by (simp only: eq)
  qed
qed

lemma round_double_representable:
  assumes "round_double x = Finite y"
  shows "representable y"
proof (cases "x = 0")
  case True
  with assms show ?thesis by (simp add: round_double_def representable_def)
next
  case False
  let ?a = "\<bar>x\<bar>"
  let ?u = "ulp ?a"
  let ?n = "round_half_even (?a / ?u)"
  define j where "j = max (ilog2 ?a) (- 1022) - 52"
  have pos: "0 < ?a" using False by simp
  have u: "?u = pow2 j" by (simp add: ulp_def j_def)
  have j: "- 1074 \<le> j" "ilog2 ?a - 52 \<le> j" by (simp_all add: j_def)
  have "?a < pow2 (ilog2 ?a + 1)" using ilog2_bounds [OF pos] ..
  also have "\<dots> = pow2 53 * pow2 (ilog2 ?a - 52)"
    by (simp add: pow2_add [symmetric] add.commute)
  also have "\<dots> \<le> pow2 53 * pow2 j"
    using pow2_mono [OF j(2)] pow2_pos [of 53] by simp
  finally have "?a / ?u < pow2 53" using pow2_pos [of j] by (simp add: u field_simps)
  then have "?a / ?u \<le> of_int (2 ^ 53)" by (simp add: pow2_nat)
  then have hi: "?n \<le> 2 ^ 53" by (rule round_half_even_le)
  have "of_int 0 \<le> ?a / ?u" using pos pow2_pos [of j] by (simp add: u)
  then have lo: "0 \<le> ?n" by (rule round_half_even_mono)
  from assms False have lt: "of_int ?n * ?u < pow2 1024"
    and y: "y = (if 0 < x then of_int ?n * ?u else - (of_int ?n * ?u))"
    by (auto simp: round_double_def Let_def not_le split: if_splits)
  have "representable (of_int ?n * pow2 j)"
    using lo hi j(1) lt unfolding u by (rule representable_multiple)
  then have r: "representable (of_int ?n * ?u)" by (simp only: u)
  show ?thesis
  proof (cases "0 < x")
    case True
    with y r show ?thesis by (simp only: if_True)
  next
    case False
    with y have "y = - (of_int ?n * ?u)" by (simp only: if_False)
    with r show ?thesis by (simp only: representable_minus)
  qed
qed

section \<open>Facts about the JavaScript operations\<close>

lemma ascii_dots: "ascii ''...'' = [0x2E, 0x2E, 0x2E]"
  by (simp add: ascii_def)

lemma slice0_take: "0 \<le> c \<Longrightarrow> slice0 c xs = take (nat c) xs"
  by (simp add: slice0_def Let_def min_def)

lemma length_split_on: "length (split_on sep xs) = Suc (length (filter sep xs))"
  by (induction xs) (auto split: list.splits)

lemma lines_example_simps:
  "maxCharacters lines_example = None" "maxLines lines_example = Some (Finite 3)"
  "lineHeight lines_example = Finite 24" "controlled lines_example = False"
  "children lines_example = ElementNode (long_text 500)" "showGradient lines_example = True"
  "expandText lines_example = ascii ''Show more''"
  "collapseText lines_example = ascii ''Show less''"
  by (simp_all add: lines_example_def destructure_def props_of_def)

lemma observerCallback_single: "observerCallback p [e] s = observerEntry p e s"
  by simp

lemma observerCallback_snoc:
  "observerCallback p (es @ [e]) s = observerEntry p e (observerCallback p es s)"
  by (induction es arbitrary: s) simp_all

lemma characters_example_simps:
  "maxCharacters (characters_example ch) = Some (Finite 200)"
  "maxLines (characters_example ch) = None"
  "maxHeight (characters_example ch) = Finite 100" "controlled (characters_example ch) = False"
  "children (characters_example ch) = ch" "showGradient (characters_example ch) = False"
  "expandText (characters_example ch) = ascii ''Show more''"
  "collapseText (characters_example ch) = ascii ''Show less''"
  by (simp_all add: characters_example_def destructure_def props_of_def)

lemma empty_content_simps:
  "maxCharacters empty_content = None" "maxLines empty_content = None"
  "maxHeight empty_content = Finite 100" "controlled empty_content = False"
  "children empty_content = StringNode []" "showGradient empty_content = True"
  "expandText empty_content = ascii ''Show more''"
  "collapseText empty_content = ascii ''Show less''"
  by (simp_all add: empty_content_def destructure_def props_of_def)

lemma three_spaces_simps:
  "maxCharacters three_spaces = Some (Finite 2)" "maxLines three_spaces = None"
  "maxHeight three_spaces = Finite 100" "controlled three_spaces = False"
  "children three_spaces = ElementNode (ascii ''   '')" "showGradient three_spaces = True"
  "expandText three_spaces = ascii ''Show more''"
  by (simp_all add: three_spaces_def destructure_def props_of_def)

lemma controlled_without_callback_simps:
  "controlled controlled_without_callback" "onToggle controlled_without_callback = None"
  "controlledExpanded controlled_without_callback = None"
  by (simp_all add: controlled_without_callback_def destructure_def props_of_def)

lemma controlled_example_simps:
  "controlled (controlled_example b)" "onToggle (controlled_example b) = Some (\<lambda>x _. x)"
  "controlledExpanded (controlled_example b) = Some b"
  by (simp_all add: controlled_example_def destructure_def props_of_def)

lemma split_space_a_b_c:
  "split_space [0x61, 0x20, 0x62, 0x20, 0x63] = [[0x61], [0x62], [0x63]]"
  by (simp add: split_space_def)

section \<open>The collapsed bound\<close>

text \<open>
  The product of the doubles 94906267 and 94906267 is not their exact product, which
  is odd and above \<open>2^53\<close>; neither is that of 94906267 and 94906269.
\<close>

lemma round_double_above_2_53:
  "(94906267::rat) * 94906267 = 9007199515875289"
  "round_double 9007199515875289 = Finite 9007199515875288"
  "(94906267::rat) * 94906269 = 9007199705687823"
  "round_double 9007199705687823 = Finite 9007199705687824"
  by code_simp+

lemma round_double_examples:
  "round_double 72 = Finite 72" "round_double (147 / 2) = Finite (147 / 2)"
  "round_double (3 / 10) = Finite (5404319552844595 / 18014398509481984)"
  by code_simp+

text \<open>
  Claim C8, with the product of the code. With finite \<open>maxLines = m\<close> and
  \<open>lineHeight = h\<close>, both positive, the collapsed bound is the product of the two
  doubles, whatever \<open>maxHeight\<close> is: it is the height the effect stores and the height
  the observer compares with. When it is finite it is a double within half the distance
  between doubles of \<open>m * h\<close>. It is \<open>m * h\<close> itself when \<open>m * h\<close> is a double, as it
  is for integers \<open>a\<close> and \<open>b\<close> with \<open>a * b \<le> 2^53\<close>. With no \<open>maxLines\<close> the bound is
  \<open>maxHeight\<close>, 100 when the caller gives none.
\<close>

theorem C8_resolved_bound:
  "(prop_maxLines r = Some (Finite m) \<and> prop_lineHeight r = Some (Finite h) \<and>
    0 < m \<and> 0 < h \<longrightarrow>
      collapsedHeight (destructure r) = round_double (m * h) \<and>
      calculatedMaxHeight (effect (destructure r) (Some el) s) = round_double (m * h) \<and>
      (\<not> truthy_number (prop_maxCharacters r) \<longrightarrow>
         needsExpansion (observerEntry (destructure r) e s)
           = (scrollHeight e > round_double (m * h))) \<and>
      (\<forall>y. collapsedHeight (destructure r) = Finite y \<longrightarrow>
         representable y \<and> \<bar>m * h - y\<bar> \<le> ulp \<bar>m * h\<bar> / 2) \<and>
      (representable (m * h) \<longrightarrow> collapsedHeight (destructure r) = Finite (m * h)) \<and>
      (m = of_int a \<and> h = of_int b \<and> a * b \<le> 2 ^ 53 \<longrightarrow>
         collapsedHeight (destructure r) = Finite (of_int (a * b))))
   \<and> (prop_maxLines r = None \<longrightarrow>
      collapsedHeight (destructure r)
        = (case prop_maxHeight r of None \<Rightarrow> Finite 100 | Some v \<Rightarrow> v) \<and>
      calculatedMaxHeight (effect (destructure r) (Some el) s)
        = (case prop_maxHeight r of None \<Rightarrow> Finite 100 | Some v \<Rightarrow> v))"
proof -
  have int_case: "round_double (of_int a * of_int b) = Finite (of_int (a * b))"
    if "0 < a" "0 < b" "a * b \<le> 2 ^ 53" for a b :: int
  proof -
    have "0 < a * b" using that by simp
    then have "\<bar>a * b\<bar> \<le> 2 ^ 53" using that by simp
    from round_double_exact [OF representable_of_int [OF this]]
    show ?thesis by simp
  qed
  have near: "representable y \<and> \<bar>m * h - y\<bar> \<le> ulp \<bar>m * h\<bar> / 2"
    if "round_double (m * h) = Finite y" for y
    using round_double_representable [OF that] round_double_near [OF that] ..
  have lines: "collapsedHeight (destructure r) = round_double (m * h)"
    if "prop_maxLines r = Some (Finite m)" "prop_lineHeight r = Some (Finite h)" "0 < m"
    using that by (simp add: collapsedHeight_def destructure_def mult.commute)
  have none: "collapsedHeight (destructure r)
      = (case prop_maxHeight r of None \<Rightarrow> Finite 100 | Some v \<Rightarrow> v)"
    if "prop_maxLines r = None"
    using that by (simp add: collapsedHeight_def destructure_def)
  have eff: "calculatedMaxHeight (effect (destructure r) (Some el) s)
      = collapsedHeight (destructure r)"
    by (simp add: effect_def)
  have obs: "needsExpansion (observerEntry (destructure r) e s)
      = (scrollHeight e > collapsedHeight (destructure r))"
    if "\<not> truthy_number (prop_maxCharacters r)"
    using that by (simp add: observerEntry_def Let_def destructure_def)
  have pos: "0 < a \<and> 0 < b" if "(0::rat) < of_int a" "(0::rat) < of_int b"
    using that by simp
  show ?thesis
    using lines none near int_case pos
    by (auto simp: eff obs round_double_exact)
qed

text \<open>
  Three lines of 24 pixels give 72 pixels, and a line height of 24.5 gives 73.5; the
  default props give 100.
\<close>

theorem C8_resolved_bound_witness:
  "collapsedHeight lines_example = Finite 72 \<and>
   calculatedMaxHeight (effect lines_example (Some []) (init lines_example)) = Finite 72 \<and>
   needsExpansion (observerEntry lines_example (measured (Finite 140) []) (init lines_example)) \<and>
   representable (3 * (49 / 2)) \<and>
   collapsedHeight fractional_lines = Finite (147 / 2) \<and>
   collapsedHeight empty_content = Finite 100"
proof -
  let ?r = "(props_of (ElementNode (long_text 500)))
       \<lparr> prop_maxLines := Some (Finite 3), prop_lineHeight := Some (Finite 24),
         prop_showGradient := Some True \<rparr>
       :: unit ExpandableContentProps"
  let ?f = "(props_of (ElementNode (long_text 500)))
       \<lparr> prop_maxLines := Some (Finite 3), prop_lineHeight := Some (Finite (49 / 2)) \<rparr>
       :: unit ExpandableContentProps"
  let ?dflt = "props_of (StringNode []) :: unit ExpandableContentProps"
  have h: "prop_maxLines ?r = Some (Finite 3) \<and> prop_lineHeight ?r = Some (Finite 24) \<and>
      (0::rat) < 3 \<and> (0::rat) < 24"
    by (simp add: props_of_def)
  have i: "(3::rat) = of_int 3 \<and> (24::rat) = of_int 24 \<and> (3::int) * 24 \<le> 2 ^ 53"
    by simp
  have hf: "prop_maxLines ?f = Some (Finite 3) \<and> prop_lineHeight ?f = Some (Finite (49 / 2)) \<and>
      (0::rat) < 3 \<and> (0::rat) < 49 / 2"
    by (simp add: props_of_def)
  have rf: "representable (3 * (49 / 2))"
    by code_simp
  have h0: "prop_maxLines ?dflt = None" "prop_maxHeight ?dflt = None"
    by (simp_all add: props_of_def)
  have c: "\<not> truthy_number (prop_maxCharacters ?r)"
    by (simp add: props_of_def)
  from C8_resolved_bound [of ?r 3 24 "[]" "init lines_example" "measured (Finite 140) []" 3 24]
    h i c
  have "collapsedHeight (destructure ?r) = Finite (of_int (3 * 24)) \<and>
      calculatedMaxHeight (effect (destructure ?r) (Some []) (init lines_example))
        = round_double (3 * 24) \<and>
      needsExpansion (observerEntry (destructure ?r) (measured (Finite 140) []) (init lines_example))
        = (scrollHeight (measured (Finite 140) []) > round_double (3 * 24)) \<and>
      collapsedHeight (destructure ?r) = round_double (3 * 24)"
    by blast
  then have 1: "collapsedHeight (destructure ?r) = Finite 72 \<and>
      calculatedMaxHeight (effect (destructure ?r) (Some []) (init lines_example)) = Finite 72 \<and>
      needsExpansion (observerEntry (destructure ?r) (measured (Finite 140) []) (init lines_example))"
    by (simp add: measured_def round_double_examples)
  from C8_resolved_bound [of ?f 3 "49 / 2" "[]" "init lines_example"
      "measured (Finite 140) []" 0 0] hf rf
  have 2: "collapsedHeight (destructure ?f) = Finite (3 * (49 / 2))"
    by blast
  from C8_resolved_bound [of ?dflt 0 0 "[]" "init empty_content" "measured 0 []" 0 0] h0
  have 3: "collapsedHeight (destructure ?dflt) = Finite 100"
    by simp
  from 1 2 3 rf show ?thesis
    by (simp add: lines_example_def fractional_lines_def empty_content_def)
qed

text \<open>
  With \<open>maxLines\<close> and \<open>lineHeight\<close> both 94906267 the bound is 9007199515875288, one
  less than their product.
\<close>

theorem C8_counterexample:
  "maxLines large_lines = Some (Finite 94906267) \<and> lineHeight large_lines = Finite 94906267 \<and>
   collapsedHeight large_lines = Finite 9007199515875288 \<and>
   collapsedHeight large_lines \<noteq> Finite (94906267 * 94906267)"
  by (simp add: large_lines_def destructure_def props_of_def collapsedHeight_def
      round_double_above_2_53)

section \<open>Content higher than the bound\<close>

text \<open>
  Claim C1, for a component with no character bound in effect (\<open>maxCharacters\<close>
  undefined, 0 or NaN). When the observer measures a height above the collapsed bound, it sets
  \<open>needsExpansion\<close> and records the height; the component returns the limited container
  with the button, whose height limit is the collapsed bound while collapsed and the
  measured height while expanded; and in the uncontrolled mode the toggle of a collapsed
  component is the step from the first to the second.
\<close>

theorem C1_exceeds_height:
  assumes "\<not> truthy_number (maxCharacters p)" and "collapsedHeight p < scrollHeight e"
  shows "let s' = observerEntry p e (effect p (Some el) s) in
     needsExpansion s' \<and> fullContentHeight s' = scrollHeight e \<and>
     render p s' ref =
       Collapsible (if expanded p s' then scrollHeight e else collapsedHeight p)
         (children p) (showGradient p \<and> \<not> expanded p s')
         (Some (if expanded p s' then collapseText p else expandText p)) \<and>
     (\<not> controlled p \<and> \<not> internalExpanded s \<longrightarrow>
        view_maxHeight (render p s' ref) = Some (collapsedHeight p) \<and>
        handleToggle p s' h = Inr (s'\<lparr>internalExpanded := True\<rparr>, h) \<and>
        view_maxHeight (render p (s'\<lparr>internalExpanded := True\<rparr>) ref)
          = Some (scrollHeight e))"
  using assms
  by (auto simp: observerEntry_def effect_def Let_def render_def getTruncatedContent_def
      expanded_def handleToggle_def)

text \<open>Three lines of 24 pixels and a measured height of 140: the limit is 72, then 140.\<close>

theorem C1_exceeds_height_witness:
  "\<not> truthy_number (maxCharacters lines_example) \<and>
   collapsedHeight lines_example = Finite 72 \<and>
   collapsedHeight lines_example < scrollHeight (measured (Finite 140) (long_text 500)) \<and>
   (let s' = observerEntry lines_example (measured (Finite 140) (long_text 500))
               (effect lines_example (Some (long_text 500)) (init lines_example)) in
      needsExpansion s' \<and> fullContentHeight s' = Finite 140 \<and>
      render lines_example s' (Some (long_text 500)) =
        Collapsible (Finite 72) (ElementNode (long_text 500)) True (Some (ascii ''Show more'')) \<and>
      handleToggle lines_example s' () = Inr (s'\<lparr>internalExpanded := True\<rparr>, ()) \<and>
      view_maxHeight
        (render lines_example (s'\<lparr>internalExpanded := True\<rparr>) (Some (long_text 500)))
        = Some (Finite 140))"
proof -
  let ?e = "measured (Finite 140) (long_text 500)"
  let ?s = "init lines_example"
  have a: "\<not> truthy_number (maxCharacters lines_example)"
    by (simp add: lines_example_simps)
  have b: "collapsedHeight lines_example = Finite 72"
    by (simp add: collapsedHeight_def lines_example_simps round_double_examples)
  have c: "collapsedHeight lines_example < scrollHeight ?e"
    by (simp add: b measured_def)
  have d: "\<not> controlled lines_example \<and> \<not> internalExpanded ?s"
    by (simp add: lines_example_simps init_def)
  have e: "\<not> expanded lines_example
              (observerEntry lines_example ?e (effect lines_example (Some (long_text 500)) ?s))"
    by (simp add: expanded_def lines_example_simps observerEntry_def effect_def init_def Let_def)
  have f: "scrollHeight ?e = Finite 140"
    by (simp add: measured_def)
  from C1_exceeds_height [OF a c, of "long_text 500" ?s "Some (long_text 500)" "()"] d
  show ?thesis
    unfolding Let_def f by (simp add: a b e lines_example_simps)
qed

text \<open>
  With a character bound of 200 and a text of five code units the height is not
  compared: a measured height of 140 against the bound of 100 leaves \<open>needsExpansion\<close>
  false, and the children are returned in the plain container.
\<close>

theorem C1_counterexample:
  "collapsedHeight (characters_example (ElementNode (ascii ''short'')))
     < scrollHeight (measured (Finite 140) (ascii ''short'')) \<and>
   \<not> needsExpansion
       (observerEntry (characters_example (ElementNode (ascii ''short'')))
          (measured (Finite 140) (ascii ''short''))
          (effect (characters_example (ElementNode (ascii ''short'')))
             (Some (ascii ''short''))
             (init (characters_example (ElementNode (ascii ''short'')))))) \<and>
   render (characters_example (ElementNode (ascii ''short'')))
       (observerEntry (characters_example (ElementNode (ascii ''short'')))
          (measured (Finite 140) (ascii ''short''))
          (effect (characters_example (ElementNode (ascii ''short'')))
             (Some (ascii ''short''))
             (init (characters_example (ElementNode (ascii ''short''))))))
       (Some (ascii ''short''))
     = Direct (ElementNode (ascii ''short''))"
  by (simp add: characters_example_simps collapsedHeight_def measured_def observerEntry_def
      effect_def init_def render_def Let_def ascii_def)

section \<open>Content that fits\<close>

text \<open>
  Claim C3, for a component with no character bound in effect and a measured height
  above 0. When the observer measures a height of at most the collapsed bound, the
  component returns the children in the plain container: no height limit, no button, no
  overlay.
\<close>

theorem C3_fits:
  assumes "\<not> truthy_number (maxCharacters p)" and "0 < scrollHeight e"
    and "scrollHeight e \<le> collapsedHeight p"
  shows "let v = render p (observerEntry p e s) ref in
     \<not> needsExpansion (observerEntry p e s) \<and> v = Direct (children p) \<and>
     view_maxHeight v = None \<and> view_button v = None \<and> \<not> view_overlay v"
  using assms
  by (auto simp: observerEntry_def Let_def render_def dest: js_le_not_less)

text \<open>The default bound of 100 and a measured height of 80.\<close>

theorem C3_fits_witness:
  "\<not> truthy_number (maxCharacters empty_content) \<and>
   0 < scrollHeight (measured (Finite 80) []) \<and>
   scrollHeight (measured (Finite 80) []) \<le> collapsedHeight empty_content \<and>
   \<not> needsExpansion (observerEntry empty_content (measured (Finite 80) []) (init empty_content)) \<and>
   render empty_content (observerEntry empty_content (measured (Finite 80) []) (init empty_content))
     (Some []) = Direct (StringNode [])"
proof -
  have a: "\<not> truthy_number (maxCharacters empty_content)"
    by (simp add: empty_content_simps)
  have b: "0 < scrollHeight (measured (Finite 80) [])"
    by (simp add: measured_def)
  have c: "scrollHeight (measured (Finite 80) []) \<le> collapsedHeight empty_content"
    by (simp add: measured_def collapsedHeight_def empty_content_simps)
  from C3_fits [OF a b c, of "init empty_content" "Some []"] a b c
  show ?thesis
    by (simp add: Let_def empty_content_simps)
qed

text \<open>
  With a character bound of 200 and a text of 500 code units, a measured height of 80
  is below the bound of 100, and the component still returns the limited container with
  the cut text and the button.
\<close>

theorem C3_counterexample:
  "scrollHeight (measured (Finite 80) (long_text 500))
     \<le> collapsedHeight (characters_example (ElementNode (long_text 500))) \<and>
   render (characters_example (ElementNode (long_text 500)))
     (observerEntry (characters_example (ElementNode (long_text 500)))
        (measured (Finite 80) (long_text 500))
        (effect (characters_example (ElementNode (long_text 500))) (Some (long_text 500))
           (init (characters_example (ElementNode (long_text 500))))))
     (Some (long_text 500))
   = Collapsible (Finite 100) (StringNode (long_text 200 @ ascii ''...'')) False
       (Some (ascii ''Show more''))"
  by (simp add: characters_example_simps collapsedHeight_def measured_def observerEntry_def
      effect_def init_def render_def Let_def getTruncatedContent_def expanded_def
      slice0_take long_text_def)

section \<open>Before the first measurement\<close>

text \<open>
  Until the observer runs, the state is the initial one or the one the effect leaves,
  and a toggle in between changes \<open>internalExpanded\<close> alone: \<open>fullContentHeight\<close> is 0 and
  \<open>needsExpansion\<close> is false.
\<close>

lemma unmeasured_state:
  "fullContentHeight (init p) = 0" "\<not> needsExpansion (init p)"
  "fullContentHeight (effect p r s) = fullContentHeight s"
  "needsExpansion (effect p r s) = needsExpansion s"
  "fullContentHeight (s\<lparr>internalExpanded := x\<rparr>) = fullContentHeight s"
  "needsExpansion (s\<lparr>internalExpanded := x\<rparr>) = needsExpansion s"
  by (simp_all add: init_def effect_def split: option.splits)

text \<open>
  Claim C4. While \<open>fullContentHeight\<close> is still 0 the guard of the plain container
  fails, so the component returns the limited container: collapsed, its height limit is
  \<open>calculatedMaxHeight\<close> and the overlay is there when \<open>showGradient\<close> is set.
\<close>

theorem C4_before_measurement:
  assumes "fullContentHeight s = 0"
  shows "render p s ref =
     Collapsible (if expanded p s then 0 else calculatedMaxHeight s)
       (getTruncatedContent p s ref) (showGradient p \<and> \<not> expanded p s)
       (if needsExpansion s then Some (if expanded p s then collapseText p else expandText p)
        else None)"
  using assms by (simp add: render_def)

text \<open>
  The first render with the default props: a height limit of 100 pixels, the overlay,
  no button.
\<close>

theorem C4_initial_render:
  "fullContentHeight (init empty_content) = 0 \<and>
   render empty_content (init empty_content) None
     = Collapsible (Finite 100) (StringNode []) True None"
proof -
  have a: "fullContentHeight (init empty_content) = 0"
    by (simp add: init_def)
  from C4_before_measurement [OF a, of empty_content None] a
  show ?thesis
    by (simp add: init_def expanded_def getTruncatedContent_def empty_content_simps)
qed

section \<open>The character bound\<close>

text \<open>
  The text of the content element stays the text of the children or the cut text: the
  first render, with the ref still null, puts one of the two there, and so does every
  later render of the same children that reads one of the two from the ref.
\<close>

lemma slice_number_take:
  "0 \<le> c \<Longrightarrow> slice_number (Finite c) xs = take (nat \<lfloor>c\<rfloor>) xs"
  by (simp add: slice0_take)

lemma floor_less_length:
  fixes c :: rat
  assumes "c < of_nat n"
  shows "nat \<lfloor>c\<rfloor> \<le> n"
proof -
  from assms have "\<lfloor>c\<rfloor> < int n" by (simp add: floor_less_iff)
  then show ?thesis by simp
qed

lemma cut_text_longer:
  fixes c :: rat
  assumes "0 \<le> c" and "c < of_nat (length t)"
  shows "c < of_nat (length (take (nat \<lfloor>c\<rfloor>) t @ ascii ''...''))"
proof -
  have n: "nat \<lfloor>c\<rfloor> \<le> length t" using assms(2) by (rule floor_less_length)
  have f: "(of_nat (nat \<lfloor>c\<rfloor>) :: rat) = of_int \<lfloor>c\<rfloor>"
    using assms(1) by simp
  have "c < of_int \<lfloor>c\<rfloor> + 1" by linarith
  then have "c < of_nat (nat \<lfloor>c\<rfloor>) + 3" unfolding f by simp
  moreover have "length (take (nat \<lfloor>c\<rfloor>) t @ ascii ''...'') = nat \<lfloor>c\<rfloor> + 3"
    using n by (simp add: ascii_dots min_def)
  ultimately show ?thesis by simp
qed

lemma cut_text_again:
  fixes c :: rat
  assumes "c < of_nat (length t)"
  shows "take (nat \<lfloor>c\<rfloor>) (take (nat \<lfloor>c\<rfloor>) t @ ascii ''...'') = take (nat \<lfloor>c\<rfloor>) t"
  using floor_less_length [OF assms] by simp

lemma getTruncatedContent_bound:
  assumes "maxCharacters p = Some (Finite c)" and "0 < c"
  shows "getTruncatedContent p s ref =
     (if expanded p s then children p
      else (let x = (case children p of StringNode t \<Rightarrow> t | ElementNode _ \<Rightarrow> or_empty ref)
            in if of_nat (length x) \<le> c then children p
               else StringNode (take (nat \<lfloor>c\<rfloor>) x @ ascii ''...'')))"
  using assms
  by (simp add: getTruncatedContent_def Let_def slice_number_take del: slice_number.simps)

lemma rendered_text_cases:
  assumes "0 < c"
  shows "rendered_text (Finite c) t d \<longleftrightarrow>
     d = t \<or> (c < of_nat (length t) \<and> d = take (nat \<lfloor>c\<rfloor>) t @ ascii ''...'')"
  using assms
  by (simp add: rendered_text_def slice_number_take del: slice_number.simps)

lemma rendered_text_first_render:
  assumes "maxCharacters p = Some (Finite c)" and "0 < c"
  shows "rendered_text (Finite c) (text_of (children p))
           (text_of (view_content (render p s None)))"
  using assms
  by (cases "children p")
     (simp_all add: render_def getTruncatedContent_bound [OF assms] rendered_text_cases
        Let_def not_le)

lemma rendered_text_rerender:
  assumes "maxCharacters p = Some (Finite c)" and "0 < c"
    and "rendered_text (Finite c) (text_of (children p)) d"
  shows "rendered_text (Finite c) (text_of (children p))
           (text_of (view_content (render p s (Some d))))"
proof -
  let ?t = "text_of (children p)"
  from assms(3) have d: "d = ?t \<or> (c < of_nat (length ?t) \<and> d = take (nat \<lfloor>c\<rfloor>) ?t @ ascii ''...'')"
    by (simp add: rendered_text_cases [OF assms(2)])
  have st: "rendered_text (Finite c) ?t (take (nat \<lfloor>c\<rfloor>) ?t @ ascii ''...'')"
    if "\<not> of_nat (length ?t) \<le> c"
    using that by (simp add: rendered_text_cases [OF assms(2)] not_le)
  have el: "rendered_text (Finite c) ?t (take (nat \<lfloor>c\<rfloor>) d @ ascii ''...'')"
    if "\<not> of_nat (length d) \<le> c"
  proof -
    from d show ?thesis
    proof
      assume "d = ?t"
      with that st show ?thesis by simp
    next
      assume a: "c < of_nat (length ?t) \<and> d = take (nat \<lfloor>c\<rfloor>) ?t @ ascii ''...''"
      then have "take (nat \<lfloor>c\<rfloor>) d = take (nat \<lfloor>c\<rfloor>) ?t"
        using cut_text_again [of c ?t] by simp
      with a show ?thesis by (simp add: rendered_text_cases [OF assms(2)])
    qed
  qed
  have same: "rendered_text (Finite c) ?t ?t"
    by (simp add: rendered_text_def)
  show ?thesis
    using st el same
    by (cases "children p")
       (simp_all add: render_def getTruncatedContent_bound [OF assms(1,2)] Let_def)
qed

lemma rendered_text_render:
  assumes "maxCharacters p = Some (Finite c)" and "0 < c"
    and "r = None \<or> (\<exists>d. r = Some d \<and> rendered_text (Finite c) (text_of (children p)) d)"
    and "ref_after_render (render p s r) = Some d'"
  shows "rendered_text (Finite c) (text_of (children p)) d'"
proof -
  have "d' = text_of (view_content (render p s r))"
    using assms(4) by (cases "render p s r") simp_all
  with assms(3) rendered_text_first_render [OF assms(1,2)]
    rendered_text_rerender [OF assms(1,2)]
  show ?thesis by auto
qed

text \<open>
  So after every sequence of renders of the same children under the same bound, from
  the mount on, the ref holds the text of the children or the cut text.
\<close>

lemma rendered_text_renders:
  assumes "0 < c"
    and "\<forall>(q, s) \<in> set ps. maxCharacters q = Some (Finite c) \<and> children q = ch"
    and "r = None \<or> (\<exists>d. r = Some d \<and> rendered_text (Finite c) (text_of ch) d)"
    and "ref_after_renders r ps = Some d'"
  shows "rendered_text (Finite c) (text_of ch) d'"
  using assms(2-)
proof (induction ps arbitrary: r)
  case Nil
  then show ?case by auto
next
  case (Cons a ps)
  obtain q s where a: "a = (q, s)" by (cases a)
  with Cons.prems(1) have q: "maxCharacters q = Some (Finite c)" "children q = ch"
    by simp_all
  let ?r = "ref_after_render (render q s r)"
  have inv: "?r = None \<or> (\<exists>d. ?r = Some d \<and> rendered_text (Finite c) (text_of ch) d)"
  proof (cases ?r)
    case None
    then show ?thesis by simp
  next
    case (Some d)
    from rendered_text_render [OF q(1) assms(1) _ Some] Cons.prems(2) q(2)
    show ?thesis using Some by simp
  qed
  have all: "\<forall>(q, s) \<in> set ps. maxCharacters q = Some (Finite c) \<and> children q = ch"
    using Cons.prems(1) by simp
  have run: "ref_after_renders ?r ps = Some d'"
    using Cons.prems(3) a by simp
  show ?case by (rule Cons.IH [OF all inv run])
qed

text \<open>
  Claim C2, for a finite character bound \<open>c\<close> above 0 and a content element that holds
  what the component rendered there for these children: the text \<open>d\<close> that the observer
  reads from the element and the text \<open>d'\<close> that the next render reads from the ref are
  each the text of the children or the cut text. Then \<open>needsExpansion\<close> is the
  comparison of the length of the plain text \<open>t\<close> of the children with \<open>c\<close>, whatever
  the measured height is. When \<open>t\<close> has at most \<open>c\<close> code units the children are shown
  and there is no button. When it has more, the button is there, the collapsed component
  shows the first \<open>c\<close> code units of \<open>t\<close> (\<open>c\<close> without its fraction) followed by three
  dots, and the expanded component shows the children.
\<close>

theorem C2_character_bound:
  assumes "maxCharacters p = Some (Finite c)" and "0 < c"
    and "rendered_text (Finite c) (text_of (children p)) d" and "textContent e = Some d"
    and "rendered_text (Finite c) (text_of (children p)) d'"
  shows "let t = text_of (children p); s' = observerEntry p e s;
             v = render p s' (Some d') in
     needsExpansion s' = (c < of_nat (length t)) \<and>
     (of_nat (length t) \<le> c \<longrightarrow> view_content v = children p \<and> view_button v = None) \<and>
     (c < of_nat (length t) \<longrightarrow>
        view_button v = Some (if expanded p s' then collapseText p else expandText p) \<and>
        view_content v =
          (if expanded p s' then children p
           else StringNode (take (nat \<lfloor>c\<rfloor>) t @ ascii ''...'')))"
proof -
  let ?t = "text_of (children p)"
  have len: "(c < of_nat (length x)) = (c < of_nat (length ?t))"
    if "rendered_text (Finite c) ?t x" for x
    using assms(2) that cut_text_longer [of c ?t]
    by (auto simp: rendered_text_cases)
  have cut: "take (nat \<lfloor>c\<rfloor>) x = take (nat \<lfloor>c\<rfloor>) ?t"
    if "rendered_text (Finite c) ?t x" for x
    using assms(2) that cut_text_again [of c ?t]
    by (auto simp: rendered_text_cases)
  have same: "x = ?t"
    if "rendered_text (Finite c) ?t x" "of_nat (length ?t) \<le> c" for x
    using assms(2) that by (auto simp: rendered_text_cases)
  have needs: "needsExpansion (observerEntry p e s) = (c < of_nat (length ?t))"
    using assms(1,2,4) len [OF assms(3)] by (simp add: observerEntry_def Let_def)
  have height: "fullContentHeight (observerEntry p e s) = scrollHeight e"
    using assms(1,2) by (simp add: observerEntry_def Let_def)
  have exp: "expanded p (observerEntry p e s) = expanded p s"
    using assms(1,2) by (simp add: observerEntry_def Let_def expanded_def)
  show ?thesis
  proof (cases "c < of_nat (length ?t)")
    case True
    with len [OF assms(5)] have "\<not> of_nat (length d') \<le> c" by simp
    with True needs cut [OF assms(5)] show ?thesis
      by (cases "children p")
         (simp_all add: Let_def render_def getTruncatedContent_bound [OF assms(1,2)] exp)
  next
    case False
    then have le: "of_nat (length ?t) \<le> c" by simp
    with False needs same [OF assms(5) le] show ?thesis
      by (cases "children p")
         (simp_all add: Let_def render_def getTruncatedContent_bound [OF assms(1,2)] exp)
  qed
qed

text \<open>
  A bound of 200 on element children of 500 code units, from the mount on: the text
  that the first render puts into the element, the first measurement, the render after
  it, and the render after a toggle. Then the same bound on a string of three.
\<close>

theorem C2_character_bound_witness:
  "(let p = characters_example (ElementNode (long_text 500));
        d = text_of (view_content (render p (init p) None));
        s' = observerEntry p (measured (Finite 300) d) (init p) in
      d = long_text 500 \<and> rendered_text (Finite 200) (long_text 500) d \<and>
      needsExpansion s' \<and>
      view_button (render p s' (Some d)) = Some (ascii ''Show more'') \<and>
      view_content (render p s' (Some d)) = StringNode (long_text 200 @ ascii ''...'') \<and>
      view_content (render p (s'\<lparr>internalExpanded := True\<rparr>) (Some d))
        = ElementNode (long_text 500)) \<and>
   (let q = characters_example (StringNode (ascii ''abc''));
        s' = observerEntry q (measured (Finite 20) (ascii ''abc'')) (init q) in
      \<not> needsExpansion s' \<and>
      view_button (render q s' (Some (ascii ''abc''))) = None \<and>
      view_content (render q s' (Some (ascii ''abc''))) = StringNode (ascii ''abc''))"
proof -
  let ?p = "characters_example (ElementNode (long_text 500))"
  let ?q = "characters_example (StringNode (ascii ''abc''))"
  let ?d = "text_of (view_content (render ?p (init ?p) None))"
  let ?e = "measured (Finite 300) ?d"
  let ?s = "observerEntry ?p ?e (init ?p)"
  have c: "maxCharacters ?p = Some (Finite 200)" "maxCharacters ?q = Some (Finite 200)"
    "(0::rat) < 200"
    by (simp_all add: characters_example_simps)
  have d: "?d = long_text 500"
    by (simp add: render_def init_def getTruncatedContent_def expanded_def
        characters_example_simps)
  have r: "rendered_text (Finite 200) (text_of (children ?p)) ?d"
    by (rule rendered_text_first_render [OF c(1) c(3)])
  have r': "rendered_text (Finite 200) (text_of (children ?q)) (ascii ''abc'')"
    by (simp add: rendered_text_def characters_example_simps)
  have t: "textContent ?e = Some ?d"
    "textContent (measured (Finite 20) (ascii ''abc'')) = Some (ascii ''abc'')"
    by (simp_all add: measured_def)
  have len: "(200::rat) < of_nat (length (text_of (children ?p)))"
    "(of_nat (length (text_of (children ?q))) :: rat) \<le> 200"
    by (simp_all add: characters_example_simps long_text_def ascii_def)
  have ex: "\<not> expanded ?p ?s" "expanded ?p (?s\<lparr>internalExpanded := True\<rparr>)"
    "?s\<lparr>internalExpanded := True\<rparr> = observerEntry ?p ?e ((init ?p)\<lparr>internalExpanded := True\<rparr>)"
    by (simp_all add: expanded_def characters_example_simps observerEntry_def init_def Let_def)
  have tk: "take (nat \<lfloor>200::rat\<rfloor>) (text_of (children ?p)) = long_text 200"
    by (simp add: characters_example_simps long_text_def)
  have rr: "rendered_text (Finite 200) (long_text 500) ?d"
    using r by (simp add: characters_example_simps)
  from C2_character_bound [OF c(1) c(3) r t(1) r, of "init ?p"]
       C2_character_bound [OF c(1) c(3) r t(1) r, of "(init ?p)\<lparr>internalExpanded := True\<rparr>"]
       C2_character_bound [OF c(2) c(3) r' t(2) r', of "init ?q"]
  show ?thesis
    unfolding Let_def using len ex tk rr d
    by (simp add: characters_example_simps)
qed

text \<open>
  A character bound of 0 is falsy, so the height is compared: a text of three code units
  with a measured height of 50 under the bound of 100 is returned whole in the plain
  container, with no button.
\<close>

theorem C2_counterexample:
  "maxCharacters zero_characters = Some (Finite 0) \<and>
   int (length (text_of (children zero_characters))) > 0 \<and>
   \<not> needsExpansion
       (observerEntry zero_characters (measured (Finite 50) (ascii ''abc''))
          (init zero_characters)) \<and>
   render zero_characters
       (observerEntry zero_characters (measured (Finite 50) (ascii ''abc''))
          (init zero_characters))
       (Some (ascii ''abc''))
     = Direct (StringNode (ascii ''abc''))"
  by (simp add: zero_characters_def destructure_def props_of_def collapsedHeight_def
      measured_def observerEntry_def init_def render_def Let_def ascii_def)

text \<open>
  The element text of other children: after element children with the text
  \<open>long old text\<close> were cut to \<open>lon...\<close> under a bound of 3, a render with the new element
  children \<open>hi\<close> reads \<open>lon...\<close> from the ref and the observer reads it from the element,
  so the cut text and the button stay.
\<close>

lemma children_change_keeps_cut_text:
  "(let p = destructure ((props_of (ElementNode (ascii ''hi'')) :: unit ExpandableContentProps)
              \<lparr> prop_maxCharacters := Some (Finite 3) \<rparr>);
        s' = observerEntry p (measured (Finite 20) (ascii ''lon...'')) (init p) in
      needsExpansion s' \<and>
      render p s' (Some (ascii ''lon...''))
        = Collapsible (Finite 100) (StringNode (ascii ''lon...'')) True
            (Some (ascii ''Show more'')))"
  by (simp add: destructure_def props_of_def measured_def observerEntry_def init_def
      render_def Let_def getTruncatedContent_def expanded_def slice0_def js_length_def
      ascii_def)

section \<open>Empty content\<close>

text \<open>
  Claim C9, for content with an empty plain text and a measured height of 0, and bounds
  that are not negative. The observer leaves \<open>needsExpansion\<close> false, and the component
  returns the children uncut with no button.
\<close>

theorem C9_empty_content:
  assumes "text_of (children p) = []"
    and "scrollHeight e = 0" and "or_empty (textContent e) = []" and "or_empty ref = []"
    and "0 \<le> collapsedHeight p"
    and "case maxCharacters p of None \<Rightarrow> True | Some c \<Rightarrow> 0 \<le> c"
  shows "let v = render p (observerEntry p e s) ref in
     \<not> needsExpansion (observerEntry p e s) \<and> view_button v = None \<and>
     view_content v = children p"
  using assms
  by (cases "children p")
     (auto simp: observerEntry_def Let_def render_def getTruncatedContent_def js_length_Nil
      split: option.splits dest: js_le_not_less)

text \<open>An empty string child under the default props and under a character bound of 200.\<close>

theorem C9_empty_content_witness:
  "text_of (children empty_content) = [] \<and> 0 \<le> collapsedHeight empty_content \<and>
   \<not> needsExpansion (observerEntry empty_content (measured (Finite 0) []) (init empty_content)) \<and>
   render empty_content (observerEntry empty_content (measured (Finite 0) []) (init empty_content))
     (Some [])
     = Collapsible (Finite 100) (StringNode []) True None \<and>
   text_of (children (characters_example (StringNode []))) = [] \<and>
   \<not> needsExpansion
       (observerEntry (characters_example (StringNode [])) (measured (Finite 0) [])
          (init (characters_example (StringNode [])))) \<and>
   render (characters_example (StringNode []))
       (observerEntry (characters_example (StringNode [])) (measured (Finite 0) [])
          (init (characters_example (StringNode [])))) (Some [])
     = Collapsible (Finite 100) (StringNode []) False None"
proof -
  let ?p = empty_content
  let ?q = "characters_example (StringNode [])"
  let ?e = "measured (Finite 0) []"
  have a: "text_of (children ?p) = []" "text_of (children ?q) = []"
    by (simp_all add: empty_content_simps characters_example_simps)
  have b: "scrollHeight ?e = 0" "or_empty (textContent ?e) = []" "or_empty (Some []) = []"
    by (simp_all add: measured_def zero_js_number_def)
  have c: "0 \<le> collapsedHeight ?p" "0 \<le> collapsedHeight ?q"
    by (simp_all add: collapsedHeight_def empty_content_simps characters_example_simps)
  have d: "case maxCharacters ?p of None \<Rightarrow> True | Some c \<Rightarrow> 0 \<le> c"
    "case maxCharacters ?q of None \<Rightarrow> True | Some c \<Rightarrow> 0 \<le> c"
    by (simp_all add: empty_content_simps characters_example_simps)
  have r: "render ?p (observerEntry ?p ?e (init ?p)) (Some [])
             = Collapsible (Finite 100) (StringNode []) True None"
    "render ?q (observerEntry ?q ?e (init ?q)) (Some [])
             = Collapsible (Finite 100) (StringNode []) False None"
    by (simp_all add: render_def observerEntry_def init_def measured_def Let_def expanded_def
        getTruncatedContent_def collapsedHeight_def empty_content_simps
        characters_example_simps)
  from C9_empty_content [OF a(1) b(1) b(2) b(3) c(1) d(1), of "init ?p"]
       C9_empty_content [OF a(2) b(1) b(2) b(3) c(2) d(2), of "init ?q"] a c r
  show ?thesis
    by (simp add: Let_def)
qed

text \<open>
  Three spaces under a character bound of 2: the text is longer than the bound, so
  \<open>needsExpansion\<close> is set, and the collapsed component shows two spaces and three dots
  above the button.
\<close>

theorem C9_counterexample:
  "list_all is_whitespace (text_of (children three_spaces)) \<and>
   needsExpansion
     (observerEntry three_spaces (measured (Finite 20) (ascii ''   '')) (init three_spaces)) \<and>
   render three_spaces
     (observerEntry three_spaces (measured (Finite 20) (ascii ''   '')) (init three_spaces))
     (Some (ascii ''   ''))
   = Collapsible (Finite 100) (StringNode (ascii ''  ...'')) True (Some (ascii ''Show more''))"
  by (simp add: three_spaces_simps is_whitespace_def observerEntry_def measured_def init_def
      render_def Let_def expanded_def getTruncatedContent_def slice0_def ascii_def)

section \<open>The toggle\<close>

text \<open>
  Claim C5. In the controlled mode with no \<open>onToggle\<close>, the toggle returns without an
  error and leaves the host as it is. It writes the negation of the displayed flag
  into \<open>internalExpanded\<close>; the displayed flag, the returned view and the other three
  state cells stay as they are.
\<close>

theorem C5_toggle_without_callback:
  assumes "controlled p" and "onToggle p = None"
  shows "let s' = s\<lparr>internalExpanded := \<not> expanded p s\<rparr> in
     handleToggle p s h = Inr (s', h) \<and>
     expanded p s' = expanded p s \<and> render p s' ref = render p s ref \<and>
     needsExpansion s' = needsExpansion s \<and> fullContentHeight s' = fullContentHeight s \<and>
     calculatedMaxHeight s' = calculatedMaxHeight s"
  using assms
  by (simp add: handleToggle_def Let_def expanded_def render_def getTruncatedContent_def)

text \<open>The controlled use with neither flag nor callback, toggled in its initial state.\<close>

theorem C5_toggle_without_callback_witness:
  "controlled controlled_without_callback \<and> onToggle controlled_without_callback = None \<and>
   handleToggle controlled_without_callback (init controlled_without_callback) ()
     = Inr ((init controlled_without_callback)\<lparr>internalExpanded := True\<rparr>, ()) \<and>
   \<not> expanded controlled_without_callback
       ((init controlled_without_callback)\<lparr>internalExpanded := True\<rparr>) \<and>
   render controlled_without_callback
       ((init controlled_without_callback)\<lparr>internalExpanded := True\<rparr>) None
     = render controlled_without_callback (init controlled_without_callback) None"
proof -
  have a: "controlled controlled_without_callback"
    and b: "onToggle controlled_without_callback = None"
    by (simp_all add: controlled_without_callback_simps)
  have e: "\<not> expanded controlled_without_callback (init controlled_without_callback)"
    by (simp add: expanded_def controlled_without_callback_simps)
  from C5_toggle_without_callback [OF a b, of "init controlled_without_callback" "()" None] a b e
  show ?thesis
    by (simp add: Let_def)
qed

text \<open>
  The same toggle changes the state of the component: \<open>internalExpanded\<close> was false and
  is true afterwards.
\<close>

theorem C5_counterexample:
  "controlled controlled_without_callback \<and> onToggle controlled_without_callback = None \<and>
   handleToggle controlled_without_callback (init controlled_without_callback) ()
     \<noteq> Inr (init controlled_without_callback, ()) \<and>
   internalExpanded (init controlled_without_callback) = False \<and>
   handleToggle controlled_without_callback (init controlled_without_callback) ()
     = Inr ((init controlled_without_callback)\<lparr>internalExpanded := True\<rparr>, ())"
  by (simp add: controlled_without_callback_simps handleToggle_def expanded_def init_def)

text \<open>
  Claim C6. In the controlled mode with the flag \<open>b\<close> and the callback \<open>f\<close>, the toggle
  returns the state of the component unchanged and the host after \<open>f\<close> was called with
  the negation of \<open>b\<close>. The displayed flag is \<open>b\<close> whatever \<open>internalExpanded\<close> holds, and so
  is the returned view.
\<close>

theorem C6_controlled_toggle:
  assumes "controlled p" and "onToggle p = Some f" and "controlledExpanded p = Some b"
  shows "handleToggle p s h = Inr (s, f (\<not> b) h) \<and> expanded p s = b \<and>
     expanded p (s\<lparr>internalExpanded := x\<rparr>) = b \<and>
     render p (s\<lparr>internalExpanded := x\<rparr>) ref = render p s ref"
  using assms
  by (simp add: handleToggle_def Let_def expanded_def render_def getTruncatedContent_def)

text \<open>The controlled use of the example component, collapsed: the host receives true.\<close>

theorem C6_controlled_toggle_witness:
  "controlled (controlled_example False) \<and>
   onToggle (controlled_example False) = Some (\<lambda>x _. x) \<and>
   controlledExpanded (controlled_example False) = Some False \<and>
   handleToggle (controlled_example False) (init (controlled_example False)) False
     = Inr (init (controlled_example False), True) \<and>
   \<not> expanded (controlled_example False) (init (controlled_example False))"
proof -
  have a: "controlled (controlled_example False)"
    and b: "onToggle (controlled_example False) = Some (\<lambda>x _. x)"
    and c: "controlledExpanded (controlled_example False) = Some False"
    by (simp_all add: controlled_example_simps)
  from C6_controlled_toggle [OF a b c, of "init (controlled_example False)" False True None] a b c
  show ?thesis
    by simp
qed

section \<open>The truncation decision of ExpandableText\<close>

text \<open>
  Claim C7, with the word count of the code: the number of pieces of \<open>text.split(" ")\<close>,
  which is one more than the number of space code units (U+0020) in the text. With a
  truthy \<open>maxWords\<close> the decision compares this count with \<open>maxWords\<close> and does not look
  at \<open>maxCharacters\<close>; otherwise it compares the length of the text with
  \<open>maxCharacters\<close>. When the decision is false the component returns the paragraph with
  the whole text and no button; when it is true, the paragraph with the button.
\<close>

theorem C7_text_truncation:
  "needsTruncation p =
     (if truthy (t_maxWords p)
      then (case t_maxWords p of
              None \<Rightarrow> False
            | Some mw \<Rightarrow> int (Suc (length (filter (\<lambda>u. u = 0x20) (t_text p)))) > mw)
      else int (length (t_text p)) > t_maxCharacters p) \<and>
   (\<not> needsTruncation p \<longrightarrow> ExpandableText p x = Paragraph (t_text p)) \<and>
   (needsTruncation p \<longrightarrow>
      ExpandableText p x =
        ParagraphWithButton (if x then t_text p else getTruncatedText p)
          (if x then t_collapseText p else t_expandText p))"
  by (auto simp: needsTruncation_def ExpandableText_def split_space_def length_split_on
      split: option.splits)

text \<open>Three words under a bound of two words, and under the default bound of 150 code units.\<close>

theorem C7_text_truncation_witness:
  "needsTruncation two_words_of_three \<and>
   ExpandableText two_words_of_three False
     = ParagraphWithButton (ascii ''a b...'') (ascii ''Read more'') \<and>
   ExpandableText two_words_of_three True
     = ParagraphWithButton (ascii ''a b c'') (ascii ''Read less'') \<and>
   \<not> needsTruncation (destructure_text (text_props (ascii ''a b c''))) \<and>
   ExpandableText (destructure_text (text_props (ascii ''a b c''))) False
     = Paragraph (ascii ''a b c'')"
proof -
  let ?p = two_words_of_three
  let ?q = "destructure_text (text_props (ascii ''a b c''))"
  have n: "needsTruncation ?p"
    by (simp add: needsTruncation_def two_words_of_three_def destructure_text_def
        text_props_def split_space_a_b_c ascii_def)
  have m: "\<not> needsTruncation ?q"
    by (simp add: needsTruncation_def destructure_text_def text_props_def ascii_def)
  have g: "getTruncatedText ?p = ascii ''a b...''"
    by (simp add: getTruncatedText_def two_words_of_three_def destructure_text_def
        text_props_def split_space_a_b_c slice0_def Let_def ascii_def)
  from C7_text_truncation [of ?p False] C7_text_truncation [of ?p True]
       C7_text_truncation [of ?q False] n m g
  show ?thesis
    by (simp add: two_words_of_three_def destructure_text_def text_props_def)
qed

text \<open>
  Two letters with a tab between them under a bound of one word: cut at white space the
  text has two words and needs truncation; the code cuts at spaces only, finds one piece
  and returns the whole text with no button.
\<close>

theorem C7_counterexample:
  "t_maxWords tab_text = Some 1 \<and> wordCount_whitespace (t_text tab_text) = 2 \<and>
   needsTruncation_spec tab_text \<and> \<not> needsTruncation tab_text \<and>
   ExpandableText tab_text False = Paragraph [0x61, 0x09, 0x62]"
  by (simp add: tab_text_def destructure_text_def text_props_def needsTruncation_spec_def
      wordCount_whitespace_def is_whitespace_def needsTruncation_def split_space_def
      ExpandableText_def)

section \<open>The branches of LoadingComponent\<close>

text \<open>
  Claim C10. When \<open>error\<close> is true the component returns the error element, whatever
  \<open>loading\<close>, \<open>empty\<close>, \<open>data\<close> and \<open>children\<close> are; otherwise, when \<open>loading\<close> is true, the
  loading element; otherwise, when \<open>empty\<close> is true, the empty element; otherwise a
  fragment around the children. A function child is applied to the data when the data
  is defined; when it is undefined the fragment holds null.
\<close>

theorem C10_precedence:
  "let error = (lprop_error r = Some True); empty = (lprop_empty r = Some True) in
   (error \<longrightarrow>
      LoadingComponent r = nullish_or (lprop_errorComponent r) DefaultError \<and>
      LoadingComponent (r\<lparr>lprop_loading := l, lprop_empty := em, lprop_data := d,
                          lprop_children := ch\<rparr>) = LoadingComponent r) \<and>
   (\<not> error \<and> lprop_loading r \<longrightarrow>
      LoadingComponent r = nullish_or (lprop_loadingComponent r) DefaultLoading) \<and>
   (\<not> error \<and> \<not> lprop_loading r \<and> empty \<longrightarrow>
      LoadingComponent r = nullish_or (lprop_emptyComponent r) DefaultEmpty) \<and>
   (\<not> error \<and> \<not> lprop_loading r \<and> \<not> empty \<longrightarrow>
      LoadingComponent r =
        (case lprop_children r of
           Function f \<Rightarrow> (case lprop_data r of None \<Rightarrow> Fragment Null | Some x \<Rightarrow> Fragment (f x))
         | Plain n \<Rightarrow> Fragment n))"
  by (auto simp: LoadingComponent_def Let_def split: option.splits child.splits)

text \<open>One set of props for each branch.\<close>

theorem C10_precedence_witness:
  "LoadingComponent (loading_props True (Some True) (Some True) (Some 1) (Plain (Node ''x'')))
     = Given ''failed'' \<and>
   LoadingComponent (loading_props True (Some True) None (Some 1) (Plain (Node ''x'')))
     = DefaultLoading \<and>
   LoadingComponent (loading_props False (Some True) (Some False) (Some 1) (Plain (Node ''x'')))
     = DefaultEmpty \<and>
   LoadingComponent (loading_props False None None None (Function (\<lambda>n. Node (replicate n CHR ''x''))))
     = Fragment Null \<and>
   LoadingComponent (loading_props False None None (Some 2) (Function (\<lambda>n. Node (replicate n CHR ''x''))))
     = Fragment (Node ''xx'') \<and>
   LoadingComponent (loading_props False None None None (Plain (Node ''x'')))
     = Fragment (Node ''x'')"
proof -
  let ?f = "Function (\<lambda>n. Node (replicate n CHR ''x'')) :: (nat, string) child"
  let ?n = "Plain (Node ''x'') :: (nat, string) child"
  note C10_precedence [where r = "loading_props True (Some True) (Some True) (Some 1) ?n"
                          and l = False and em = None and d = None and ch = ?f]
    C10_precedence [where r = "loading_props True (Some True) None (Some 1) ?n"]
    C10_precedence [where r = "loading_props False (Some True) (Some False) (Some 1) ?n"]
    C10_precedence [where r = "loading_props False None None None ?f"]
    C10_precedence [where r = "loading_props False None None (Some 2) ?f"]
    C10_precedence [where r = "loading_props False None None None ?n"]
  then show ?thesis
    by (simp add: loading_props_def Let_def numeral_2_eq_2)
qed

end
